theory Spec2Isabelle
  imports Main
begin

section \<open>The labelling client of widgelabel.py\<close>

text \<open>
  A shallow embedding of \<^verbatim>\<open>LabellingClient\<close> (src/widgelabel.py). The client object is a
  record that every method takes and returns; a Python exception is a value of type
  \<open>error\<close>. A method that can raise after it has already mutated the object returns a
  pair: the exception (if any) and the object as it is left behind.

  Scope of the model.
  \<^item> A pandas table is the list of its rows, in row order. The text table has the columns
    \<^verbatim>\<open>uid_key\<close> and \<^verbatim>\<open>text_key\<close>; the configuration modelled is the default one for the
    display-only settings (\<^verbatim>\<open>additional_cols_names = []\<close>, \<^verbatim>\<open>hansard_tags = False\<close>).
  \<^item> Identifiers are values of an arbitrary type compared by equality.
  \<^item> A cell of the \<^verbatim>\<open>tags\<close> column holds either a Python list of strings (the rows built
    by \<^verbatim>\<open>add_tag\<close>) or a Python string (the rows that \<^verbatim>\<open>pd.read_csv\<close> delivers).
  \<^item> A file on disk is \<open>None\<close> when it does not exist and otherwise the list of its data
    rows. \<^verbatim>\<open>to_csv\<close> writes an object cell as its \<^verbatim>\<open>str()\<close>; \<^verbatim>\<open>read_csv\<close> hands the text
    of a cell back (identifiers and sentiments are taken to be read back as written).
    Only the client's own two files are modelled (\<^verbatim>\<open>file = None\<close> in the save methods).
  \<^item> Rendering (the widget tree, \<^verbatim>\<open>display\<close>, \<^verbatim>\<open>update_data_panel\<close>) produces no state and
    is left out; building the widgets is taken to succeed. The calls the toolkit makes
    while a panel is built are modelled: \<^verbatim>\<open>widgets.interactive_output(f, ...)\<close> calls \<^verbatim>\<open>f\<close>
    once when it is built, and \<^verbatim>\<open>interactive(f, ...)\<close> calls \<^verbatim>\<open>f\<close> with the value of its
    control when it is displayed. \<^verbatim>\<open>with self.out_debug:\<close> shows an exception raised in its
    body in the debug panel and suppresses it (the behaviour of an Output widget inside a
    notebook kernel). Every callback is also an operation of a session (\<open>step\<close>).
  \<^item> \<^verbatim>\<open>re.search(regex, str)\<close> is a parameter of the highlight formatter: a function
    from the string to the span \<open>(start, end)\<close> of the leftmost match, if there is one.
\<close>

subsection \<open>Exceptions, indexing, strings\<close>

datatype error = IndexError | AttributeError | RecursionError | FileNotFoundError

text \<open>\<^verbatim>\<open>df.iloc[i]\<close>: a position from the front, or from the back when \<open>i\<close> is negative;
  IndexError outside \<open>[-n, n)\<close>.\<close>

definition iloc :: "'a list \<Rightarrow> int \<Rightarrow> error + 'a" where
  "iloc xs i =
     (let n = int (length xs) in
      if 0 \<le> i \<and> i < n then Inr (xs ! nat i)
      else if - n \<le> i \<and> i < 0 then Inr (xs ! nat (n + i))
      else Inl IndexError)"

fun starts_with :: "string \<Rightarrow> string \<Rightarrow> bool" where
  "starts_with [] s = True"
| "starts_with (p # ps) [] = False"
| "starts_with (p # ps) (c # cs) = (p = c \<and> starts_with ps cs)"

text \<open>The position of the leftmost occurrence of a literal text in a string.\<close>

fun find_literal :: "string \<Rightarrow> string \<Rightarrow> nat option" where
  "find_literal pat [] = (if pat = [] then Some 0 else None)"
| "find_literal pat (c # cs) =
     (if starts_with pat (c # cs) then Some 0 else map_option Suc (find_literal pat cs))"

text \<open>\<^verbatim>\<open>re.search\<close> for a pattern without metacharacters (the empty pattern included).\<close>

definition search_literal :: "string \<Rightarrow> string \<Rightarrow> (nat \<times> nat) option" where
  "search_literal pat s = map_option (\<lambda>i. (i, i + length pat)) (find_literal pat s)"

text \<open>\<^verbatim>\<open>t in s\<close> for two Python strings.\<close>

definition is_substr :: "string \<Rightarrow> string \<Rightarrow> bool" where
  "is_substr t s = (find_literal t s \<noteq> None)"

text \<open>\<^verbatim>\<open>repr\<close> of an ASCII string and \<^verbatim>\<open>str\<close> of a list of strings.\<close>

definition hex_digit :: "nat \<Rightarrow> char" where
  "hex_digit n = ''0123456789abcdef'' ! (n mod 16)"

definition repr_char :: "char \<Rightarrow> char \<Rightarrow> string" where
  "repr_char q c =
     (if c = CHR 0x5C then [CHR 0x5C, CHR 0x5C]
      else if c = q then [CHR 0x5C, c]
      else if c = CHR 0x0A then [CHR 0x5C, CHR ''n'']
      else if c = CHR 0x0D then [CHR 0x5C, CHR ''r'']
      else if c = CHR 0x09 then [CHR 0x5C, CHR ''t'']
      else if of_char c < (32::nat) \<or> of_char c = (127::nat)
        then [CHR 0x5C, CHR ''x'', hex_digit (of_char c div 16), hex_digit (of_char c)]
      else [c])"

definition py_repr_str :: "string \<Rightarrow> string" where
  "py_repr_str s =
     (let q = (if CHR 0x27 \<in> set s \<and> CHR 0x22 \<notin> set s then CHR 0x22 else CHR 0x27)
      in [q] @ concat (map (repr_char q) s) @ [q])"

fun join_with :: "string \<Rightarrow> string list \<Rightarrow> string" where
  "join_with sep [] = []"
| "join_with sep [x] = x"
| "join_with sep (x # y # ys) = x @ sep @ join_with sep (y # ys)"

definition py_str_list :: "string list \<Rightarrow> string" where
  "py_str_list ts = ''['' @ join_with '', '' (map py_repr_str ts) @ '']''"

subsection \<open>Tables and the client object\<close>

record 'u text_row =
  row_uid :: 'u
  row_text :: string

datatype tags_cell = TagList "string list" | TagStr string

datatype debug_entry = Printed string | Traceback error

record 'u client =
  label_file :: "('u \<times> string) list option"
  tags_file :: "('u \<times> string) list option"
  auto_save :: bool
  sentiment_options :: "string list"
  text_df :: "'u text_row list"
  sentiment_df :: "('u \<times> string) list"
  tags_df :: "('u \<times> tags_cell) list"
  current_text_index :: int
  current_uid :: "'u option"
  current_return_later :: bool
  current_not_rel :: bool
  current_sentiment :: "string list option"
  out_debug :: "debug_entry list"

text \<open>\<^verbatim>\<open>uid in df[uid_key].values\<close>, \<^verbatim>\<open>df[df[uid_key] != uid]\<close> and
  \<^verbatim>\<open>df.loc[df[uid_key] == uid]\<close>.\<close>

definition uid_in :: "'u \<Rightarrow> ('u \<times> 'b) list \<Rightarrow> bool" where
  "uid_in u df = (u \<in> set (map fst df))"

definition rows_ne :: "'u \<Rightarrow> ('u \<times> 'b) list \<Rightarrow> ('u \<times> 'b) list" where
  "rows_ne u df = filter (\<lambda>r. fst r \<noteq> u) df"

definition rows_eq :: "'u \<Rightarrow> ('u \<times> 'b) list \<Rightarrow> ('u \<times> 'b) list" where
  "rows_eq u df = filter (\<lambda>r. fst r = u) df"

text \<open>What Python does with a cell of the tags column: \<^verbatim>\<open>tag in tmp_tags\<close>,
  \<^verbatim>\<open>tmp_tags.append(tag)\<close>, \<^verbatim>\<open>tmp_tags.remove(tag)\<close>, \<^verbatim>\<open>tmp_tags == []\<close>, and the text
  \<^verbatim>\<open>to_csv\<close> writes for it. A string has neither \<^verbatim>\<open>append\<close> nor \<^verbatim>\<open>remove\<close>.\<close>

fun cell_contains :: "string \<Rightarrow> tags_cell \<Rightarrow> bool" where
  "cell_contains tag (TagList ts) = (tag \<in> set ts)"
| "cell_contains tag (TagStr s) = is_substr tag s"

fun cell_append :: "tags_cell \<Rightarrow> string \<Rightarrow> error + tags_cell" where
  "cell_append (TagList ts) tag = Inr (TagList (ts @ [tag]))"
| "cell_append (TagStr s) tag = Inl AttributeError"

fun cell_remove :: "tags_cell \<Rightarrow> string \<Rightarrow> error + tags_cell" where
  "cell_remove (TagList ts) tag = Inr (TagList (remove1 tag ts))"
| "cell_remove (TagStr s) tag = Inl AttributeError"

fun cell_is_empty_list :: "tags_cell \<Rightarrow> bool" where
  "cell_is_empty_list (TagList ts) = (ts = [])"
| "cell_is_empty_list (TagStr s) = False"

fun cell_text :: "tags_cell \<Rightarrow> string" where
  "cell_text (TagList ts) = py_str_list ts"
| "cell_text (TagStr s) = s"

subsection \<open>Persistence\<close>

definition save_label_data :: "'u client \<Rightarrow> 'u client" where
  "save_label_data s = s\<lparr>label_file := Some (sentiment_df s)\<rparr>"

definition load_label_data :: "'u client \<Rightarrow> error + 'u client" where
  "load_label_data s =
     (case label_file s of
        None \<Rightarrow> Inl FileNotFoundError
      | Some rows \<Rightarrow> Inr (s\<lparr>sentiment_df := rows\<rparr>))"

definition save_tags_data :: "'u client \<Rightarrow> 'u client" where
  "save_tags_data s =
     s\<lparr>tags_file := Some (map (\<lambda>r. (fst r, cell_text (snd r))) (tags_df s))\<rparr>"

definition load_tags_data :: "'u client \<Rightarrow> error + 'u client" where
  "load_tags_data s =
     (case tags_file s of
        None \<Rightarrow> Inl FileNotFoundError
      | Some rows \<Rightarrow> Inr (s\<lparr>tags_df := map (\<lambda>r. (fst r, TagStr (snd r))) rows\<rparr>))"

definition save_all :: "'u client \<Rightarrow> 'u client" where
  "save_all s =
     (let s1 = save_tags_data (save_label_data s)
      in s1\<lparr>out_debug := out_debug s1 @ [Printed ''Auto-saved all data.'']\<rparr>)"

definition do_auto_save :: "'u client \<Rightarrow> 'u client" where
  "do_auto_save s = (if auto_save s then save_all s else s)"

subsection \<open>Tags\<close>

text \<open>The body of \<^verbatim>\<open>add_tag\<close> under \<^verbatim>\<open>with self.out_debug:\<close>, and the method itself, which
  returns normally with the traceback in the debug panel when the body raised.\<close>

definition add_tag_body :: "'u \<Rightarrow> string \<Rightarrow> 'u client \<Rightarrow> error + 'u client" where
  "add_tag_body uid tag s =
     (case (if uid_in uid (tags_df s) then
              (let tmp_tags = snd (hd (rows_eq uid (tags_df s))) in
               if \<not> cell_contains tag tmp_tags then cell_append tmp_tags tag
               else Inr tmp_tags)
            else Inr (TagList [tag])) of
        Inl e \<Rightarrow> Inl e
      | Inr tmp_tags \<Rightarrow>
          Inr (do_auto_save (s\<lparr>tags_df := rows_ne uid (tags_df s) @ [(uid, tmp_tags)]\<rparr>)))"

definition add_tag :: "'u \<Rightarrow> string \<Rightarrow> 'u client \<Rightarrow> 'u client" where
  "add_tag uid tag s =
     (case add_tag_body uid tag s of
        Inr s' \<Rightarrow> s'
      | Inl e \<Rightarrow> s\<lparr>out_debug := out_debug s @ [Traceback e]\<rparr>)"

definition remove_tag_body :: "'u \<Rightarrow> string \<Rightarrow> 'u client \<Rightarrow> error + 'u client" where
  "remove_tag_body uid tag s =
     (if uid_in uid (tags_df s) then
        (let tmp_tags = snd (hd (rows_eq uid (tags_df s))) in
         case (if cell_contains tag tmp_tags then cell_remove tmp_tags tag
               else Inr tmp_tags) of
           Inl e \<Rightarrow> Inl e
         | Inr tmp_tags' \<Rightarrow>
             (let df = rows_ne uid (tags_df s) in
              Inr (do_auto_save
                     (s\<lparr>tags_df := (if \<not> cell_is_empty_list tmp_tags'
                                     then df @ [(uid, tmp_tags')] else df)\<rparr>))))
      else Inr (do_auto_save s))"

definition remove_tag :: "'u \<Rightarrow> string \<Rightarrow> 'u client \<Rightarrow> 'u client" where
  "remove_tag uid tag s =
     (case remove_tag_body uid tag s of
        Inr s' \<Rightarrow> s'
      | Inl e \<Rightarrow> s\<lparr>out_debug := out_debug s @ [Traceback e]\<rparr>)"

definition check_tag :: "'u \<Rightarrow> string \<Rightarrow> 'u client \<Rightarrow> bool" where
  "check_tag uid tag s =
     (if uid_in uid (tags_df s)
      then cell_contains tag (snd (hd (rows_eq uid (tags_df s))))
      else False)"

subsection \<open>The current record\<close>

definition set_current_variables :: "int \<Rightarrow> 'u client \<Rightarrow> error option \<times> 'u client" where
  "set_current_variables text_index s =
     (let s1 = s\<lparr>current_text_index := text_index\<rparr> in
      case iloc (text_df s1) text_index of
        Inl e \<Rightarrow> (Some e, s1)
      | Inr r \<Rightarrow>
          (let u = row_uid r;
               s2 = s1\<lparr>current_uid := Some u\<rparr>;
               s3 = s2\<lparr>current_return_later := check_tag u ''return_later'' s2\<rparr>;
               s4 = s3\<lparr>current_not_rel := check_tag u ''not_rel'' s3\<rparr>;
               already_labeled = uid_in u (sentiment_df s4)
           in (None,
               s4\<lparr>current_sentiment :=
                     (if already_labeled
                      then Some (map snd (rows_eq u (sentiment_df s4)))
                      else None)\<rparr>)))"

text \<open>The callback \<^verbatim>\<open>f\<close> of \<^verbatim>\<open>create_special_buttons\<close>; an exception in it stays in the
  output area of \<^verbatim>\<open>interactive_output\<close>.\<close>

definition create_special_buttons_f :: "bool \<Rightarrow> bool \<Rightarrow> 'u client \<Rightarrow> 'u client" where
  "create_special_buttons_f return_later not_rel s =
     (case current_uid s of
        None \<Rightarrow> s
      | Some u \<Rightarrow>
          (let s1 = (if return_later then add_tag u ''return_later'' s
                     else remove_tag u ''return_later'' s)
           in (if not_rel then add_tag u ''not_rel'' s1
               else remove_tag u ''not_rel'' s1)))"

definition create_special_buttons :: "'u client \<Rightarrow> 'u client" where
  "create_special_buttons s =
     create_special_buttons_f (current_return_later s) (current_not_rel s) s"

text \<open>The callback \<^verbatim>\<open>f\<close> of \<^verbatim>\<open>create_sent_select_subpanel_text_part\<close>, called with the value
  of the sentiment buttons (\<open>None\<close> when nothing is selected). \<^verbatim>\<open>if sentiment:\<close> is false
  for \<open>None\<close> and for the empty string.\<close>

definition create_sent_select_subpanel_text_part_f ::
    "string option \<Rightarrow> 'u client \<Rightarrow> error option \<times> 'u client" where
  "create_sent_select_subpanel_text_part_f sentiment s =
     (case iloc (text_df s) (current_text_index s) of
        Inl e \<Rightarrow> (Some e, s)
      | Inr r \<Rightarrow>
          (let tmp_uid = row_uid r in
           case sentiment of
             None \<Rightarrow> (None, s)
           | Some v \<Rightarrow>
               if v = [] then (None, s)
               else
                 (let df = (if uid_in tmp_uid (sentiment_df s)
                            then rows_ne tmp_uid (sentiment_df s)
                            else sentiment_df s);
                      s1 = s\<lparr>sentiment_df := df @ [(tmp_uid, v)]\<rparr>
                  in (None,
                      if auto_save s1
                      then (let s2 = save_label_data s1
                            in s2\<lparr>out_debug := out_debug s2 @ [Printed ''Auto-saved data.'']\<rparr>)
                      else s1))))"

text \<open>The value the sentiment buttons hold once built with \<^verbatim>\<open>value = self.current_sentiment\<close>
  (the array of the sentiments stored for the record, or \<open>None\<close>): the option equal to the
  one stored sentiment; nothing when there is no stored sentiment. Where several rows are
  stored for the record, or the stored sentiment is not among the options, the source's
  \<^verbatim>\<open>ToggleButtons\<close> rejects the value with a TraitError and the panel is not displayed, so
  that no callback is called; the model calls it with no value, which changes nothing, and
  does not report the TraitError (building the widgets is taken to succeed).\<close>

definition sentiment_buttons_value :: "'u client \<Rightarrow> string option" where
  "sentiment_buttons_value s =
     (case current_sentiment s of
        None \<Rightarrow> None
      | Some vs \<Rightarrow>
          (case vs of
             [] \<Rightarrow> None
           | v # rest \<Rightarrow>
               if rest = [] \<and> v \<in> set (sentiment_options s) then Some v else None))"

text \<open>\<^verbatim>\<open>create_sent_select_subpanel_text_part\<close>: the current variables, the special buttons
  (whose callback runs as they are built), the sentiment buttons, and the display of
  \<^verbatim>\<open>text_widget\<close>, on which \<^verbatim>\<open>interactive\<close> calls \<^verbatim>\<open>f\<close> with the value of the sentiment buttons
  (an exception in that call is shown, not raised).\<close>

definition create_sent_select_subpanel_text_part ::
    "'u client \<Rightarrow> error option \<times> 'u client" where
  "create_sent_select_subpanel_text_part s =
     (case set_current_variables (current_text_index s) s of
        (Some e, s1) \<Rightarrow> (Some e, s1)
      | (None, s1) \<Rightarrow>
          (let s2 = create_special_buttons s1
           in (None,
               snd (create_sent_select_subpanel_text_part_f (sentiment_buttons_value s2) s2))))"

subsection \<open>Navigation buttons\<close>

definition on_next_clicked :: "'u client \<Rightarrow> error option \<times> 'u client" where
  "on_next_clicked s =
     create_sent_select_subpanel_text_part
       (s\<lparr>current_text_index := current_text_index s + 1\<rparr>)"

definition on_prev_clicked :: "'u client \<Rightarrow> error option \<times> 'u client" where
  "on_prev_clicked s =
     create_sent_select_subpanel_text_part
       (s\<lparr>current_text_index := current_text_index s - 1\<rparr>)"

definition on_save_clicked :: "'u client \<Rightarrow> 'u client" where
  "on_save_clicked s =
     (let s1 = save_all s
      in s1\<lparr>out_debug := out_debug s1 @ [Printed ''All data manually saved.'']\<rparr>)"

definition on_del_clicked :: "'u client \<Rightarrow> error option \<times> 'u client" where
  "on_del_clicked s =
     (case current_uid s of
        None \<Rightarrow> (Some AttributeError, s)
      | Some u \<Rightarrow>
          (let s1 = s\<lparr>sentiment_df := rows_ne u (sentiment_df s)\<rparr>;
               s2 = (if auto_save s1
                     then (let s' = save_label_data s1
                           in s'\<lparr>out_debug := out_debug s' @ [Printed ''Auto-saved data.'']\<rparr>)
                     else s1)
           in create_sent_select_subpanel_text_part s2))"

text \<open>\<^verbatim>\<open>create_sent_select_subpanel\<close> and \<^verbatim>\<open>create_widget\<close>: the navigation buttons are created,
  then the text part is built; the rest is layout. The callbacks exist from here on.\<close>

definition create_sent_select_subpanel :: "'u client \<Rightarrow> error option \<times> 'u client" where
  "create_sent_select_subpanel s = create_sent_select_subpanel_text_part s"

definition create_widget :: "'u client \<Rightarrow> error option \<times> 'u client" where
  "create_widget s = create_sent_select_subpanel s"

subsection \<open>Construction\<close>

text \<open>\<^verbatim>\<open>text_df.index[text_df[uid_key] == uid].tolist()[0]\<close>: the first position whose
  identifier is \<open>uid\<close>; indexing the empty list raises IndexError.\<close>

definition find_text_index_by_uid :: "'u \<Rightarrow> 'u text_row list \<Rightarrow> error + nat" where
  "find_text_index_by_uid uid df =
     (case filter (\<lambda>i. row_uid (df ! i) = uid) [0..<length df] of
        [] \<Rightarrow> Inl IndexError
      | k # ks \<Rightarrow> Inr k)"

text \<open>\<^verbatim>\<open>__init__\<close>, given the text table, the two files as found on disk, \<^verbatim>\<open>start_index\<close>,
  \<^verbatim>\<open>auto_save\<close> and \<^verbatim>\<open>sentiment_options\<close>. An exception leaves no object.\<close>

definition init_client ::
    "'u text_row list \<Rightarrow> ('u \<times> string) list option \<Rightarrow> ('u \<times> string) list option \<Rightarrow>
     int option \<Rightarrow> bool \<Rightarrow> string list \<Rightarrow> error + 'u client" where
  "init_client text lf tf start_index autosave opts =
     (let s0 = \<lparr>label_file = lf, tags_file = tf, auto_save = autosave,
                sentiment_options = opts, text_df = text, sentiment_df = [],
                tags_df = [],
                current_text_index = (case start_index of Some i \<Rightarrow> i | None \<Rightarrow> 0),
                current_uid = None, current_return_later = False,
                current_not_rel = False, current_sentiment = None, out_debug = []\<rparr>
      in case (if label_file s0 \<noteq> None then load_label_data s0
               else Inr (s0\<lparr>out_debug := out_debug s0 @ [Printed ''No label file found.'']\<rparr>)) of
           Inl e \<Rightarrow> Inl e
         | Inr s1 \<Rightarrow>
            (case (if tags_file s1 \<noteq> None then load_tags_data s1
                   else Inr (s1\<lparr>out_debug := out_debug s1 @ [Printed ''No tags file found.'']\<rparr>)) of
               Inl e \<Rightarrow> Inl e
             | Inr s2 \<Rightarrow>
                (if start_index = None then
                   (if length (sentiment_df s2) > 0 then
                      (let last_uid_labelled = fst (sentiment_df s2 ! (length (sentiment_df s2) - 1))
                       in case find_text_index_by_uid last_uid_labelled (text_df s2) of
                            Inl e \<Rightarrow> Inl e
                          | Inr k \<Rightarrow> Inr (s2\<lparr>current_text_index := int k\<rparr>))
                    else Inr (s2\<lparr>current_text_index := 0\<rparr>))
                 else Inr s2)))"

subsection \<open>Highlighting\<close>

text \<open>\<^verbatim>\<open>add_match_formatting\<close>. The first argument is the number of nested calls the
  interpreter still allows; a call beyond it raises RecursionError.\<close>

definition span_open :: "string \<Rightarrow> string" where
  "span_open color = ''<span style=\"color:'' @ color @ ''\">**''"

definition span_close :: string where
  "span_close = ''**</span>''"

fun add_match_formatting ::
    "nat \<Rightarrow> (string \<Rightarrow> (nat \<times> nat) option) \<Rightarrow> string \<Rightarrow> string \<Rightarrow> error + string" where
  "add_match_formatting 0 search color str = Inl RecursionError"
| "add_match_formatting (Suc depth) search color str =
     (case search str of
        None \<Rightarrow> Inr str
      | Some (m_start, m_end) \<Rightarrow>
          if length (drop m_end str) > 0 then
            (case add_match_formatting depth search color (drop m_end str) of
               Inl e \<Rightarrow> Inl e
             | Inr rest \<Rightarrow>
                 Inr (take m_start str @ span_open color
                      @ take (m_end - m_start) (drop m_start str) @ span_close @ rest))
          else Inr str)"

subsection \<open>Sessions\<close>

text \<open>The operations a session can perform on the client, and a run of them. A click
  handler that raises leaves the object as it was at the raise.\<close>

datatype 'u action =
    Next | Prev | Save | Del
  | Select "string option"
  | Toggle bool bool
  | AddTag 'u string
  | RemoveTag 'u string

fun step :: "'u action \<Rightarrow> 'u client \<Rightarrow> 'u client" where
  "step Next s = snd (on_next_clicked s)"
| "step Prev s = snd (on_prev_clicked s)"
| "step Save s = on_save_clicked s"
| "step Del s = snd (on_del_clicked s)"
| "step (Select v) s = snd (create_sent_select_subpanel_text_part_f v s)"
| "step (Toggle a b) s = create_special_buttons_f a b s"
| "step (AddTag u t) s = add_tag u t s"
| "step (RemoveTag u t) s = remove_tag u t s"

fun run :: "'u action list \<Rightarrow> 'u client \<Rightarrow> 'u client" where
  "run [] s = s"
| "run (a # as) s = run as (step a s)"

subsection \<open>Replaying tag operations on a plain set\<close>

text \<open>A sequence of \<^verbatim>\<open>add_tag\<close>/\<^verbatim>\<open>remove_tag\<close> calls on one identifier, and the same
  operations on a plain set of strings.\<close>

datatype tag_op = Add string | Remove string

fun apply_tag_op :: "'u \<Rightarrow> tag_op \<Rightarrow> 'u client \<Rightarrow> 'u client" where
  "apply_tag_op uid (Add t) s = add_tag uid t s"
| "apply_tag_op uid (Remove t) s = remove_tag uid t s"

fun apply_tag_ops :: "'u \<Rightarrow> tag_op list \<Rightarrow> 'u client \<Rightarrow> 'u client" where
  "apply_tag_ops uid [] s = s"
| "apply_tag_ops uid (x # xs) s = apply_tag_ops uid xs (apply_tag_op uid x s)"

fun replay_set :: "tag_op list \<Rightarrow> string set \<Rightarrow> string set" where
  "replay_set [] S = S"
| "replay_set (Add t # xs) S = replay_set xs (insert t S)"
| "replay_set (Remove t # xs) S = replay_set xs (S - {t})"

text \<open>The rows of one identifier are in order when there is none, or exactly one holding a
  non-empty list without repetitions; the tag set held for an identifier is the content
  of its first row.\<close>

fun ok_rows :: "('u \<times> tags_cell) list \<Rightarrow> bool" where
  "ok_rows [] = True"
| "ok_rows [(v, TagList ts)] = (distinct ts \<and> ts \<noteq> [])"
| "ok_rows rs = False"

definition tags_ok :: "'u \<Rightarrow> ('u \<times> tags_cell) list \<Rightarrow> bool" where
  "tags_ok u df = ok_rows (rows_eq u df)"

fun held_rows :: "('u \<times> tags_cell) list \<Rightarrow> string set" where
  "held_rows ((v, TagList ts) # rs) = set ts"
| "held_rows rs = {}"

definition tags_held :: "'u \<Rightarrow> ('u \<times> tags_cell) list \<Rightarrow> string set" where
  "tags_held u df = held_rows (rows_eq u df)"

subsection \<open>A small store for concrete runs\<close>

definition ex_text :: "string text_row list" where
  "ex_text = [\<lparr>row_uid = ''A'', row_text = ''alpha''\<rparr>,
              \<lparr>row_uid = ''B'', row_text = ''beta''\<rparr>,
              \<lparr>row_uid = ''C'', row_text = ''gamma''\<rparr>]"

definition ex_options :: "string list" where
  "ex_options = [''positive'', ''slightly positive'', ''slightly negative'', ''negative'']"

text \<open>The client built over \<open>ex_text\<close> when neither file exists yet.\<close>

definition ex_client :: "bool \<Rightarrow> string client" where
  "ex_client autosave =
     \<lparr>label_file = None, tags_file = None, auto_save = autosave,
      sentiment_options = ex_options, text_df = ex_text, sentiment_df = [],
      tags_df = [], current_text_index = 0, current_uid = None,
      current_return_later = False, current_not_rel = False, current_sentiment = None,
      out_debug = [Printed ''No label file found.'', Printed ''No tags file found.'']\<rparr>"

subsection \<open>Notions used in the statements\<close>

text \<open>The data rows of a file (none when the file does not exist).\<close>

definition file_rows :: "('u \<times> string) list option \<Rightarrow> ('u \<times> string) list" where
  "file_rows f = (case f of None \<Rightarrow> [] | Some rows \<Rightarrow> rows)"

text \<open>A file is current when it holds what \<^verbatim>\<open>to_csv\<close> writes for the table now.\<close>

definition label_saved :: "'u client \<Rightarrow> bool" where
  "label_saved s = (label_file s = Some (sentiment_df s))"

definition tags_saved :: "'u client \<Rightarrow> bool" where
  "tags_saved s = (tags_file s = Some (map (\<lambda>r. (fst r, cell_text (snd r))) (tags_df s)))"

text \<open>Autosave is on and both files are current.\<close>

definition autosaved :: "'u client \<Rightarrow> bool" where
  "autosaved s = (auto_save s \<and> label_saved s \<and> tags_saved s)"

text \<open>No identifier labels two rows, in the sentiment table and in the label file.\<close>

definition uid_unique :: "'u client \<Rightarrow> bool" where
  "uid_unique s = (distinct (map fst (sentiment_df s))
                   \<and> distinct (map fst (file_rows (label_file s))))"

text \<open>The sets and clears of a session, read off the client each operation starts from: the
  row a selection sets, the identifier a reset clears, and the set that showing a record
  performs when the record has one stored sentiment among the options (\<open>shown_events\<close>, for
  the panel rebuilt by next, previous and reset). \<open>latest_from\<close> walks them from the newest
  to the oldest and returns the newest set that no later clear has removed; when no such
  set remains, the last surviving row of the initial table.\<close>

datatype 'u sent_event = Upsert 'u string | Delete 'u

definition shown_events :: "'u client \<Rightarrow> 'u sent_event list" where
  "shown_events s =
     (case iloc (text_df s) (current_text_index s) of
        Inl e \<Rightarrow> []
      | Inr r \<Rightarrow>
          (case map snd (rows_eq (row_uid r) (sentiment_df s)) of
             [] \<Rightarrow> []
           | v # rest \<Rightarrow>
               if rest = [] \<and> v \<in> set (sentiment_options s) \<and> v \<noteq> []
               then [Upsert (row_uid r) v] else []))"

fun sentiment_events :: "'u action \<Rightarrow> 'u client \<Rightarrow> 'u sent_event list" where
  "sentiment_events (Select v) s =
     (case iloc (text_df s) (current_text_index s) of
        Inl e \<Rightarrow> []
      | Inr r \<Rightarrow> (case v of
                    None \<Rightarrow> []
                  | Some x \<Rightarrow> if x = [] then [] else [Upsert (row_uid r) x]))"
| "sentiment_events Del s =
     (case current_uid s of
        None \<Rightarrow> []
      | Some u \<Rightarrow> Delete u # shown_events (s\<lparr>sentiment_df := rows_ne u (sentiment_df s)\<rparr>))"
| "sentiment_events Next s = shown_events (s\<lparr>current_text_index := current_text_index s + 1\<rparr>)"
| "sentiment_events Prev s = shown_events (s\<lparr>current_text_index := current_text_index s - 1\<rparr>)"
| "sentiment_events a s = []"

fun events :: "'u action list \<Rightarrow> 'u client \<Rightarrow> 'u sent_event list" where
  "events [] s = []"
| "events (a # as) s = sentiment_events a s @ events as (step a s)"

definition last_row :: "'a list \<Rightarrow> 'a option" where
  "last_row df = (case df of [] \<Rightarrow> None | r # rs \<Rightarrow> Some (last (r # rs)))"

fun latest_from ::
    "('u \<times> string) list \<Rightarrow> 'u list \<Rightarrow> 'u sent_event list \<Rightarrow> ('u \<times> string) option" where
  "latest_from df dead [] = last_row (filter (\<lambda>r. fst r \<notin> set dead) df)"
| "latest_from df dead (Upsert u v # es) =
     (if u \<in> set dead then latest_from df dead es else Some (u, v))"
| "latest_from df dead (Delete u # es) = latest_from df (u # dead) es"

fun apply_event :: "'u sent_event \<Rightarrow> ('u \<times> string) list \<Rightarrow> ('u \<times> string) list" where
  "apply_event (Upsert u v) df = rows_ne u df @ [(u, v)]"
| "apply_event (Delete u) df = rows_ne u df"

text \<open>The positions \<^verbatim>\<open>iloc\<close> rejects, and the row a position it accepts stands for.\<close>

definition out_of_range :: "'a list \<Rightarrow> int \<Rightarrow> bool" where
  "out_of_range xs i = (i < - int (length xs) \<or> int (length xs) \<le> i)"

definition wrap_index :: "'a list \<Rightarrow> int \<Rightarrow> nat" where
  "wrap_index xs i = nat (if i < 0 then int (length xs) + i else i)"

text \<open>Further concrete clients and sessions over \<open>ex_text\<close>.\<close>

definition ex_client_blank_option :: "string client" where
  "ex_client_blank_option = (ex_client False)\<lparr>sentiment_options := ['''', ''positive'']\<rparr>"

definition ex_tagged :: "string client" where
  "ex_tagged = add_tag ''A'' ''return_later'' (ex_client False)"

definition ex_reloaded :: "error + string client" where
  "ex_reloaded = load_tags_data ((ex_client False)\<lparr>tags_file := tags_file (save_tags_data ex_tagged)\<rparr>)"

definition ex_session :: "string action list" where
  "ex_session = [Select (Some ''positive''), Next, Select (Some ''negative''), Prev]"

definition ex_label_rows :: "(string \<times> string) list" where
  "ex_label_rows = [(''A'', ''positive''), (''C'', ''negative'')]"

text \<open>The client over \<open>ex_text\<close> with autosave on, once its widget is built; a client
  holding two tags for \<open>A\<close>.\<close>

definition ex_built :: "string client" where
  "ex_built = snd (create_widget (ex_client True))"

definition ex_two_tags :: "string client" where
  "ex_two_tags = add_tag ''A'' ''not_rel'' (add_tag ''A'' ''return_later'' (ex_client False))"

section \<open>Properties\<close>

subsection \<open>Table lemmas\<close>

lemma uid_in_rows_eq: "uid_in u df \<longleftrightarrow> rows_eq u df \<noteq> []"
  by (auto simp: uid_in_def rows_eq_def filter_empty_conv)

lemma rows_eq_rows_ne [simp]: "rows_eq u (rows_ne u df) = []"
  by (simp add: rows_eq_def rows_ne_def filter_empty_conv)

lemma rows_eq_append [simp]: "rows_eq u (xs @ ys) = rows_eq u xs @ rows_eq u ys"
  by (simp add: rows_eq_def)

lemma rows_eq_single [simp]: "rows_eq u [(u, c)] = [(u, c)]"
  by (simp add: rows_eq_def)

lemma tags_df_save_all [simp]: "tags_df (save_all s) = tags_df s"
  by (simp add: save_all_def save_tags_data_def save_label_data_def Let_def)

lemma tags_df_do_auto_save [simp]: "tags_df (do_auto_save s) = tags_df s"
  by (simp add: do_auto_save_def)

lemma ex_client_init:
  "init_client ex_text None None None autosave ex_options = Inr (ex_client autosave)"
  by (simp add: init_client_def ex_client_def)

subsection \<open>Tag sets\<close>

lemma tags_ok_cases:
  assumes "tags_ok u df"
  obtains (absent) "rows_eq u df = []"
        | (present) ts where "rows_eq u df = [(u, TagList ts)]" "distinct ts" "ts \<noteq> []"
proof (cases "rows_eq u df")
  case Nil
  then show ?thesis using absent by simp
next
  case (Cons r rs)
  obtain v c where r: "r = (v, c)" by (cases r)
  have "r \<in> set (rows_eq u df)" using Cons by simp
  then have v: "v = u" using r by (simp add: rows_eq_def)
  from assms Cons r have "ok_rows ((v, c) # rs)" by (simp add: tags_ok_def)
  then obtain ts where "c = TagList ts" "rs = []" "distinct ts" "ts \<noteq> []"
    by (cases c; cases rs) auto
  then show ?thesis using present Cons r v by simp
qed

lemma add_tag_rows:
  assumes "tags_ok u (tags_df s)"
  shows "rows_eq u (tags_df (add_tag u t s)) =
           [(u, TagList (case rows_eq u (tags_df s) of
                            [] \<Rightarrow> [t]
                          | r # rs \<Rightarrow> (case snd r of
                                TagList ts \<Rightarrow> if t \<in> set ts then ts else ts @ [t]
                              | TagStr x \<Rightarrow> [])))]"
  using assms
proof (cases rule: tags_ok_cases)
  case absent
  then have "\<not> uid_in u (tags_df s)" by (simp add: uid_in_rows_eq)
  then show ?thesis using absent by (simp add: add_tag_def add_tag_body_def)
next
  case (present ts)
  then have "uid_in u (tags_df s)" by (simp add: uid_in_rows_eq)
  then show ?thesis using present by (simp add: add_tag_def add_tag_body_def)
qed

lemma remove_tag_rows:
  assumes "tags_ok u (tags_df s)"
  shows "rows_eq u (tags_df (remove_tag u t s)) =
           (case rows_eq u (tags_df s) of
              [] \<Rightarrow> []
            | r # rs \<Rightarrow> (case snd r of
                  TagList ts \<Rightarrow> if remove1 t ts = [] then [] else [(u, TagList (remove1 t ts))]
                | TagStr x \<Rightarrow> []))"
  using assms
proof (cases rule: tags_ok_cases)
  case absent
  then have "\<not> uid_in u (tags_df s)" by (simp add: uid_in_rows_eq)
  then show ?thesis using absent by (simp add: remove_tag_def remove_tag_body_def)
next
  case (present ts)
  then have "uid_in u (tags_df s)" by (simp add: uid_in_rows_eq)
  then show ?thesis using present
    by (simp add: remove_tag_def remove_tag_body_def Let_def remove1_idem)
qed

lemma apply_tag_op_ok:
  assumes "tags_ok u (tags_df s)"
  shows "tags_ok u (tags_df (apply_tag_op u x s))"
  using assms
proof (cases rule: tags_ok_cases)
  case absent
  then show ?thesis
    by (cases x) (simp_all add: tags_ok_def add_tag_rows[OF assms] remove_tag_rows[OF assms])
next
  case (present ts)
  then show ?thesis
    by (cases x) (simp_all add: tags_ok_def add_tag_rows[OF assms] remove_tag_rows[OF assms])
qed

lemma apply_tag_op_held:
  assumes "tags_ok u (tags_df s)"
  shows "tags_held u (tags_df (apply_tag_op u x s)) = replay_set [x] (tags_held u (tags_df s))"
  using assms
proof (cases rule: tags_ok_cases)
  case absent
  then show ?thesis
    by (cases x) (simp_all add: tags_held_def add_tag_rows[OF assms] remove_tag_rows[OF assms])
next
  case (present ts)
  have rm: "set (remove1 t ts) = set ts - {t}" for t
    using present(2) by (rule set_remove1_eq)
  show ?thesis
  proof (cases x)
    case (Add t)
    then show ?thesis using present
      by (auto simp add: tags_held_def add_tag_rows[OF assms])
  next
    case (Remove t)
    have "held_rows (if remove1 t ts = [] then [] else [(u, TagList (remove1 t ts))])
            = set (remove1 t ts)"
      by simp
    then show ?thesis using Remove present rm[of t]
      by (simp add: tags_held_def remove_tag_rows[OF assms])
  qed
qed

lemma tags_ok_present: "tags_ok u df \<Longrightarrow> uid_in u df \<longleftrightarrow> tags_held u df \<noteq> {}"
  by (erule tags_ok_cases) (simp_all add: uid_in_rows_eq tags_held_def)

lemma replay_set_append: "replay_set (xs @ ys) S = replay_set ys (replay_set xs S)"
  by (induction xs S rule: replay_set.induct) simp_all

lemma apply_tag_ops_inv:
  "tags_ok u (tags_df s) \<Longrightarrow>
     tags_ok u (tags_df (apply_tag_ops u xs s)) \<and>
     tags_held u (tags_df (apply_tag_ops u xs s)) = replay_set xs (tags_held u (tags_df s))"
proof (induction xs arbitrary: s)
  case Nil
  then show ?case by simp
next
  case (Cons x xs)
  have ok: "tags_ok u (tags_df (apply_tag_op u x s))"
    using Cons.prems by (rule apply_tag_op_ok)
  have held: "tags_held u (tags_df (apply_tag_op u x s)) = replay_set [x] (tags_held u (tags_df s))"
    using Cons.prems by (rule apply_tag_op_held)
  from Cons.IH[OF ok] held show ?case
    using replay_set_append[of "[x]" xs] by simp
qed

text \<open>
  C1. Let the rows of identifier \<open>u\<close> in the tags table be in order (none, as in a client
  started without a tags file, or one row with a non-empty duplicate-free list). After any
  sequence of \<^verbatim>\<open>add_tag\<close>/\<^verbatim>\<open>remove_tag\<close> calls on \<open>u\<close>, the tag set the table holds for \<open>u\<close>
  is the one obtained by replaying the operations on a plain set (add inserts, remove
  deletes), and the table has a row for \<open>u\<close> exactly when that set is not empty.
\<close>

theorem tag_ops_replay_plain_set:
  assumes "tags_ok u (tags_df s)"
  shows "tags_held u (tags_df (apply_tag_ops u xs s)) = replay_set xs (tags_held u (tags_df s))
       \<and> (uid_in u (tags_df (apply_tag_ops u xs s))
            \<longleftrightarrow> replay_set xs (tags_held u (tags_df s)) \<noteq> {})"
  using apply_tag_ops_inv[OF assms, of xs] tags_ok_present[of u "tags_df (apply_tag_ops u xs s)"]
  by simp

theorem tag_ops_replay_plain_set_witness:
  "tags_ok ''A'' (tags_df (ex_client False))
   \<and> tags_held ''A'' (tags_df (apply_tag_ops ''A''
         [Add ''return_later'', Add ''return_later'', Add ''not_rel'', Remove ''return_later'']
         (ex_client False))) = {''not_rel''}
   \<and> uid_in ''A'' (tags_df (apply_tag_ops ''A''
         [Add ''return_later'', Add ''return_later'', Add ''not_rel'', Remove ''return_later'']
         (ex_client False)))"
proof -
  have h: "tags_ok ''A'' (tags_df (ex_client False))"
    by (simp add: tags_ok_def rows_eq_def ex_client_def)
  have e: "tags_held ''A'' (tags_df (ex_client False)) = {}"
    by (simp add: tags_held_def rows_eq_def ex_client_def)
  show ?thesis
    using h tag_ops_replay_plain_set[OF h,
        of "[Add ''return_later'', Add ''return_later'', Add ''not_rel'', Remove ''return_later'']"]
    by (auto simp add: e)
qed

subsection \<open>Fields the operations leave alone\<close>

lemma save_all_fields [simp]:
  "text_df (save_all s) = text_df s"
  "sentiment_df (save_all s) = sentiment_df s"
  "current_text_index (save_all s) = current_text_index s"
  "auto_save (save_all s) = auto_save s"
  "current_uid (save_all s) = current_uid s"
  "current_sentiment (save_all s) = current_sentiment s"
  "sentiment_options (save_all s) = sentiment_options s"
  "label_file (save_all s) = Some (sentiment_df s)"
  by (simp_all add: save_all_def save_tags_data_def save_label_data_def Let_def)

lemma do_auto_save_fields [simp]:
  "text_df (do_auto_save s) = text_df s"
  "sentiment_df (do_auto_save s) = sentiment_df s"
  "current_text_index (do_auto_save s) = current_text_index s"
  "auto_save (do_auto_save s) = auto_save s"
  "current_uid (do_auto_save s) = current_uid s"
  "current_sentiment (do_auto_save s) = current_sentiment s"
  "sentiment_options (do_auto_save s) = sentiment_options s"
  by (simp_all add: do_auto_save_def)

lemma add_tag_body_fields:
  assumes "add_tag_body u t s = Inr s'"
  shows "text_df s' = text_df s" "sentiment_df s' = sentiment_df s"
    "current_text_index s' = current_text_index s" "auto_save s' = auto_save s"
    "current_uid s' = current_uid s" "current_sentiment s' = current_sentiment s"
    "sentiment_options s' = sentiment_options s"
  using assms by (auto simp: add_tag_body_def split: sum.splits if_splits)

lemma add_tag_fields [simp]:
  "text_df (add_tag u t s) = text_df s"
  "sentiment_df (add_tag u t s) = sentiment_df s"
  "current_text_index (add_tag u t s) = current_text_index s"
  "auto_save (add_tag u t s) = auto_save s"
  "current_uid (add_tag u t s) = current_uid s"
  "current_sentiment (add_tag u t s) = current_sentiment s"
  "sentiment_options (add_tag u t s) = sentiment_options s"
  by (auto simp: add_tag_def dest: add_tag_body_fields split: sum.splits)

lemma remove_tag_body_fields:
  assumes "remove_tag_body u t s = Inr s'"
  shows "text_df s' = text_df s" "sentiment_df s' = sentiment_df s"
    "current_text_index s' = current_text_index s" "auto_save s' = auto_save s"
    "current_uid s' = current_uid s" "current_sentiment s' = current_sentiment s"
    "sentiment_options s' = sentiment_options s"
  using assms by (auto simp: remove_tag_body_def Let_def split: sum.splits if_splits)

lemma remove_tag_fields [simp]:
  "text_df (remove_tag u t s) = text_df s"
  "sentiment_df (remove_tag u t s) = sentiment_df s"
  "current_text_index (remove_tag u t s) = current_text_index s"
  "auto_save (remove_tag u t s) = auto_save s"
  "current_uid (remove_tag u t s) = current_uid s"
  "current_sentiment (remove_tag u t s) = current_sentiment s"
  "sentiment_options (remove_tag u t s) = sentiment_options s"
  by (auto simp: remove_tag_def dest: remove_tag_body_fields split: sum.splits)

lemma create_special_buttons_f_fields [simp]:
  "text_df (create_special_buttons_f a b s) = text_df s"
  "sentiment_df (create_special_buttons_f a b s) = sentiment_df s"
  "current_text_index (create_special_buttons_f a b s) = current_text_index s"
  "auto_save (create_special_buttons_f a b s) = auto_save s"
  "current_uid (create_special_buttons_f a b s) = current_uid s"
  "current_sentiment (create_special_buttons_f a b s) = current_sentiment s"
  "sentiment_options (create_special_buttons_f a b s) = sentiment_options s"
  by (simp_all add: create_special_buttons_f_def Let_def split: option.splits)

lemma set_current_variables_cases:
  obtains (fail) e where "iloc (text_df s) i = Inl e"
      "set_current_variables i s = (Some e, s\<lparr>current_text_index := i\<rparr>)"
  | (ok) r where "iloc (text_df s) i = Inr r"
      "set_current_variables i s =
         (None, s\<lparr>current_text_index := i, current_uid := Some (row_uid r),
                  current_return_later := check_tag (row_uid r) ''return_later'' s,
                  current_not_rel := check_tag (row_uid r) ''not_rel'' s,
                  current_sentiment :=
                    (if uid_in (row_uid r) (sentiment_df s)
                     then Some (map snd (rows_eq (row_uid r) (sentiment_df s)))
                     else None)\<rparr>)"
proof (cases "iloc (text_df s) i")
  case (Inl e)
  then have "set_current_variables i s = (Some e, s\<lparr>current_text_index := i\<rparr>)"
    by (simp add: set_current_variables_def)
  then show ?thesis using Inl fail by blast
next
  case (Inr r)
  then show ?thesis
    by (intro ok[of r]) (simp_all add: set_current_variables_def check_tag_def Let_def)
qed

lemma set_current_variables_fields [simp]:
  "text_df (snd (set_current_variables i s)) = text_df s"
  "sentiment_df (snd (set_current_variables i s)) = sentiment_df s"
  "tags_df (snd (set_current_variables i s)) = tags_df s"
  "current_text_index (snd (set_current_variables i s)) = i"
  "auto_save (snd (set_current_variables i s)) = auto_save s"
  "sentiment_options (snd (set_current_variables i s)) = sentiment_options s"
  "label_file (snd (set_current_variables i s)) = label_file s"
  "tags_file (snd (set_current_variables i s)) = tags_file s"
  by (cases rule: set_current_variables_cases[of s i]; simp)+

lemma set_current_variables_fst:
  "fst (set_current_variables i s) =
     (case iloc (text_df s) i of Inl e \<Rightarrow> Some e | Inr r \<Rightarrow> None)"
  by (cases rule: set_current_variables_cases[of s i]) simp_all

lemma set_current_variables_uid:
  "current_uid (snd (set_current_variables i s)) =
     (case iloc (text_df s) i of Inl e \<Rightarrow> current_uid s | Inr r \<Rightarrow> Some (row_uid r))"
  by (cases rule: set_current_variables_cases[of s i]) simp_all

lemma select_unfold:
  assumes "iloc (text_df s) (current_text_index s) = Inr r" "v \<noteq> []"
  shows "create_sent_select_subpanel_text_part_f (Some v) s =
     (None, (let s1 = s\<lparr>sentiment_df := rows_ne (row_uid r) (sentiment_df s) @ [(row_uid r, v)]\<rparr>
             in if auto_save s
                then (save_label_data s1)\<lparr>out_debug := out_debug s1 @ [Printed ''Auto-saved data.'']\<rparr>
                else s1))"
proof -
  have "\<not> uid_in (row_uid r) (sentiment_df s) \<Longrightarrow> rows_ne (row_uid r) (sentiment_df s) = sentiment_df s"
    by (force simp: uid_in_def rows_ne_def filter_id_conv)
  then show ?thesis using assms
    by (auto simp add: create_sent_select_subpanel_text_part_f_def Let_def save_label_data_def)
qed

lemma select_fields:
  assumes "iloc (text_df s) (current_text_index s) = Inr r" "v \<noteq> []"
  shows "sentiment_df (snd (create_sent_select_subpanel_text_part_f (Some v) s))
           = rows_ne (row_uid r) (sentiment_df s) @ [(row_uid r, v)]"
    and "text_df (snd (create_sent_select_subpanel_text_part_f (Some v) s)) = text_df s"
    and "current_text_index (snd (create_sent_select_subpanel_text_part_f (Some v) s)) = current_text_index s"
    and "tags_file (snd (create_sent_select_subpanel_text_part_f (Some v) s)) = tags_file s"
    and "tags_df (snd (create_sent_select_subpanel_text_part_f (Some v) s)) = tags_df s"
    and "fst (create_sent_select_subpanel_text_part_f (Some v) s) = None"
  by (simp_all add: select_unfold[OF assms] Let_def save_label_data_def)

text \<open>The sentiment callback either leaves the client as it is, or sets a row.\<close>

lemma select_cases:
  obtains (skip) "snd (create_sent_select_subpanel_text_part_f v s) = s"
      "sentiment_events (Select v) s = []"
  | (set) r x where "iloc (text_df s) (current_text_index s) = Inr r" "v = Some x" "x \<noteq> []"
      "sentiment_events (Select v) s = [Upsert (row_uid r) x]"
      "snd (create_sent_select_subpanel_text_part_f v s) =
         (if auto_save s
          then s\<lparr>sentiment_df := rows_ne (row_uid r) (sentiment_df s) @ [(row_uid r, x)],
                 label_file := Some (rows_ne (row_uid r) (sentiment_df s) @ [(row_uid r, x)]),
                 out_debug := out_debug s @ [Printed ''Auto-saved data.'']\<rparr>
          else s\<lparr>sentiment_df := rows_ne (row_uid r) (sentiment_df s) @ [(row_uid r, x)]\<rparr>)"
proof (cases "iloc (text_df s) (current_text_index s)")
  case (Inl e)
  then show ?thesis using skip by (simp add: create_sent_select_subpanel_text_part_f_def)
next
  case (Inr r)
  show ?thesis
  proof (cases "v = None \<or> v = Some []")
    case True
    then show ?thesis using skip Inr
      by (auto simp add: create_sent_select_subpanel_text_part_f_def)
  next
    case False
    then obtain x where x: "v = Some x" "x \<noteq> []" by auto
    show ?thesis
      using set[OF Inr x] Inr x
      by (simp add: select_unfold[OF Inr x(2)] Let_def save_label_data_def)
  qed
qed

lemma select_any_fields [simp]:
  "text_df (snd (create_sent_select_subpanel_text_part_f v s)) = text_df s"
  "current_text_index (snd (create_sent_select_subpanel_text_part_f v s)) = current_text_index s"
  "auto_save (snd (create_sent_select_subpanel_text_part_f v s)) = auto_save s"
  "tags_df (snd (create_sent_select_subpanel_text_part_f v s)) = tags_df s"
  "tags_file (snd (create_sent_select_subpanel_text_part_f v s)) = tags_file s"
  "current_uid (snd (create_sent_select_subpanel_text_part_f v s)) = current_uid s"
  by (cases rule: select_cases[of v s]; simp)+

lemma select_any_sentiment:
  "sentiment_df (snd (create_sent_select_subpanel_text_part_f v s))
     = fold apply_event (sentiment_events (Select v) s) (sentiment_df s)"
  by (cases rule: select_cases[of v s]) simp_all

lemma text_part_unfold:
  "create_sent_select_subpanel_text_part s =
     (case iloc (text_df s) (current_text_index s) of
        Inl e \<Rightarrow> (Some e, s)
      | Inr r \<Rightarrow>
          (None, snd (create_sent_select_subpanel_text_part_f
                        (sentiment_buttons_value
                           (create_special_buttons (snd (set_current_variables (current_text_index s) s))))
                        (create_special_buttons (snd (set_current_variables (current_text_index s) s))))))"
  by (cases rule: set_current_variables_cases[of s "current_text_index s"])
     (simp_all add: create_sent_select_subpanel_text_part_def Let_def)

lemma text_part_fields [simp]:
  "text_df (snd (create_sent_select_subpanel_text_part s)) = text_df s"
  "current_text_index (snd (create_sent_select_subpanel_text_part s)) = current_text_index s"
  "auto_save (snd (create_sent_select_subpanel_text_part s)) = auto_save s"
  by (simp_all add: text_part_unfold create_special_buttons_def split: sum.splits)

lemma text_part_fst:
  "fst (create_sent_select_subpanel_text_part s) =
     (case iloc (text_df s) (current_text_index s) of Inl e \<Rightarrow> Some e | Inr r \<Rightarrow> None)"
  by (simp add: text_part_unfold split: sum.splits)

text \<open>What showing a record sets.\<close>

lemma buttons_value_shown:
  assumes "iloc (text_df s) (current_text_index s) = Inr r"
  shows "sentiment_events
           (Select (sentiment_buttons_value
              (create_special_buttons (snd (set_current_variables (current_text_index s) s)))))
           (create_special_buttons (snd (set_current_variables (current_text_index s) s)))
         = shown_events s"
proof -
  let ?s1 = "snd (set_current_variables (current_text_index s) s)"
  let ?s2 = "create_special_buttons ?s1"
  have cs: "current_sentiment ?s1 =
              (if uid_in (row_uid r) (sentiment_df s)
               then Some (map snd (rows_eq (row_uid r) (sentiment_df s))) else None)"
    using assms by (cases rule: set_current_variables_cases[of s "current_text_index s"]) simp_all
  have f: "current_sentiment ?s2 = current_sentiment ?s1" "sentiment_options ?s2 = sentiment_options s"
    "text_df ?s2 = text_df s" "current_text_index ?s2 = current_text_index s"
    by (simp_all add: create_special_buttons_def)
  show ?thesis
    using assms
    by (auto simp add: sentiment_buttons_value_def shown_events_def f cs uid_in_rows_eq
        split: list.splits)
qed

lemma text_part_sentiment:
  "sentiment_df (snd (create_sent_select_subpanel_text_part s))
     = fold apply_event (shown_events s) (sentiment_df s)"
proof (cases "iloc (text_df s) (current_text_index s)")
  case (Inl e)
  then show ?thesis by (simp add: text_part_unfold shown_events_def)
next
  case (Inr r)
  show ?thesis
    using Inr buttons_value_shown[OF Inr]
    by (simp add: text_part_unfold select_any_sentiment create_special_buttons_def)
qed

subsection \<open>Looking up an identifier\<close>

text \<open>
  C7. Looking up the position of an identifier that no record of the store carries raises
  (\<^verbatim>\<open>[][0]\<close>, an IndexError, is the form the not-found error takes in the source) and returns
  no index.
\<close>

theorem find_text_index_by_uid_absent:
  "uid \<notin> set (map row_uid df) \<Longrightarrow> find_text_index_by_uid uid df = Inl IndexError"
proof -
  assume a: "uid \<notin> set (map row_uid df)"
  have "filter (\<lambda>i. row_uid (df ! i) = uid) [0..<length df] = []"
    using a by (auto simp: filter_empty_conv)
  then show ?thesis by (simp add: find_text_index_by_uid_def)
qed

theorem find_text_index_by_uid_absent_witness:
  "''D'' \<notin> set (map row_uid ex_text) \<and> find_text_index_by_uid ''D'' ex_text = Inl IndexError"
proof -
  have h: "''D'' \<notin> set (map row_uid ex_text)" by (simp add: ex_text_def)
  show ?thesis using h find_text_index_by_uid_absent[OF h] by simp
qed

subsection \<open>Navigation\<close>

lemma iloc_eq:
  "iloc xs i = (if out_of_range xs i then Inl IndexError else Inr (xs ! wrap_index xs i))"
  by (auto simp: iloc_def out_of_range_def wrap_index_def Let_def)

text \<open>
  C6, as the code has it. The next and previous buttons move the cursor by exactly one,
  without any bounds check. The record lookup that follows raises IndexError exactly when
  the new cursor lies outside \<open>[-n, n)\<close> for a store of \<open>n\<close> records, and so does a later
  lookup at the cursor left behind; a cursor in \<open>[-n, 0)\<close> resolves to record \<open>n + cursor\<close>,
  counted from the end.
\<close>

theorem nav_cursor_lookup:
  "current_text_index (snd (on_next_clicked s)) = current_text_index s + 1
   \<and> current_text_index (snd (on_prev_clicked s)) = current_text_index s - 1
   \<and> fst (on_next_clicked s)
       = (if out_of_range (text_df s) (current_text_index s + 1) then Some IndexError else None)
   \<and> fst (on_prev_clicked s)
       = (if out_of_range (text_df s) (current_text_index s - 1) then Some IndexError else None)
   \<and> iloc (text_df (snd (on_next_clicked s))) (current_text_index (snd (on_next_clicked s)))
       = (if out_of_range (text_df s) (current_text_index s + 1) then Inl IndexError
          else Inr (text_df s ! wrap_index (text_df s) (current_text_index s + 1)))
   \<and> iloc (text_df (snd (on_prev_clicked s))) (current_text_index (snd (on_prev_clicked s)))
       = (if out_of_range (text_df s) (current_text_index s - 1) then Inl IndexError
          else Inr (text_df s ! wrap_index (text_df s) (current_text_index s - 1)))"
  by (simp add: on_next_clicked_def on_prev_clicked_def text_part_fst iloc_eq)

text \<open>
  C6 as stated says that retreating below zero leaves a cursor on which the next lookup
  fails. With three records and the cursor at 0, the previous button leaves the cursor at
  \<open>-1\<close>, raises nothing, and the lookup there yields the last record.
\<close>

theorem prev_at_zero_wraps:
  "current_text_index (ex_client False) = 0
   \<and> fst (on_prev_clicked (ex_client False)) = None
   \<and> current_text_index (snd (on_prev_clicked (ex_client False))) = - 1
   \<and> iloc (text_df (snd (on_prev_clicked (ex_client False))))
        (current_text_index (snd (on_prev_clicked (ex_client False))))
       = Inr \<lparr>row_uid = ''C'', row_text = ''gamma''\<rparr>"
  by (simp add: on_prev_clicked_def text_part_fst iloc_def ex_client_def ex_text_def)

subsection \<open>Setting and reading a sentiment\<close>

text \<open>
  C5, as the code has it. Let the cursor resolve to a record and let \<open>v\<close> be a non-empty
  sentiment value. Setting the sentiment of that record to \<open>v\<close> and reading the current
  variables again raises nothing and yields exactly the one value \<open>v\<close> for the record's
  identifier (the array of the sentiments of the matching rows is \<open>[v]\<close>).
\<close>

theorem set_then_read_sentiment:
  assumes "iloc (text_df s) (current_text_index s) = Inr r" and "v \<noteq> []"
  shows "fst (create_sent_select_subpanel_text_part_f (Some v) s) = None
       \<and> fst (set_current_variables (current_text_index s)
                (snd (create_sent_select_subpanel_text_part_f (Some v) s))) = None
       \<and> current_uid (snd (set_current_variables (current_text_index s)
                (snd (create_sent_select_subpanel_text_part_f (Some v) s)))) = Some (row_uid r)
       \<and> current_sentiment (snd (set_current_variables (current_text_index s)
                (snd (create_sent_select_subpanel_text_part_f (Some v) s)))) = Some [v]"
proof -
  let ?s1 = "snd (create_sent_select_subpanel_text_part_f (Some v) s)"
  have il: "iloc (text_df ?s1) (current_text_index s) = Inr r"
    using assms by (simp add: select_fields)
  have df: "sentiment_df ?s1 = rows_ne (row_uid r) (sentiment_df s) @ [(row_uid r, v)]"
    using assms by (rule select_fields)
  have "set_current_variables (current_text_index s) ?s1 =
         (None, ?s1\<lparr>current_text_index := current_text_index s, current_uid := Some (row_uid r),
                  current_return_later := check_tag (row_uid r) ''return_later'' ?s1,
                  current_not_rel := check_tag (row_uid r) ''not_rel'' ?s1,
                  current_sentiment :=
                    (if uid_in (row_uid r) (sentiment_df ?s1)
                     then Some (map snd (rows_eq (row_uid r) (sentiment_df ?s1)))
                     else None)\<rparr>)"
    by (rule set_current_variables_cases[of ?s1 "current_text_index s"]) (simp_all add: assms)
  moreover have "uid_in (row_uid r) (sentiment_df ?s1)"
    by (simp add: df uid_in_def)
  moreover have "rows_eq (row_uid r) (sentiment_df ?s1) = [(row_uid r, v)]"
    by (simp add: df)
  ultimately show ?thesis using assms by (simp add: select_fields)
qed

lemma ex_iloc:
  "iloc (text_df (ex_client a)) (current_text_index (ex_client a))
     = Inr \<lparr>row_uid = ''A'', row_text = ''alpha''\<rparr>"
  by (simp add: ex_client_def ex_text_def iloc_def)

theorem set_then_read_sentiment_witness:
  "current_sentiment (snd (set_current_variables 0
        (snd (create_sent_select_subpanel_text_part_f (Some ''negative'') (ex_client False)))))
     = Some [''negative'']"
proof -
  have h: "iloc (text_df (ex_client False)) (current_text_index (ex_client False))
             = Inr \<lparr>row_uid = ''A'', row_text = ''alpha''\<rparr>"
    by (simp add: ex_client_def ex_text_def iloc_def)
  have c: "current_text_index (ex_client False) = 0" by (simp add: ex_client_def)
  show ?thesis using set_then_read_sentiment[OF h, of "''negative''"] by (simp add: c)
qed

text \<open>
  C5 as stated ranges over every value of the configured option set. The guard
  \<^verbatim>\<open>if sentiment:\<close> skips the empty string: with the empty string among the options, setting it
  stores no row and the read that follows finds no sentiment.
\<close>

theorem blank_sentiment_not_stored:
  "[] \<in> set (sentiment_options ex_client_blank_option)
   \<and> fst (create_sent_select_subpanel_text_part_f (Some []) ex_client_blank_option) = None
   \<and> current_uid (snd (set_current_variables 0
        (snd (create_sent_select_subpanel_text_part_f (Some []) ex_client_blank_option)))) = Some ''A''
   \<and> current_sentiment (snd (set_current_variables 0
        (snd (create_sent_select_subpanel_text_part_f (Some []) ex_client_blank_option)))) = None"
  by (simp add: ex_client_blank_option_def ex_client_def ex_text_def
      create_sent_select_subpanel_text_part_f_def set_current_variables_def iloc_def
      uid_in_def Let_def)

subsection \<open>The initial cursor\<close>

lemma init_client_start_none:
  "init_client text lf tf None a opts =
     (let s2 = \<lparr>label_file = lf, tags_file = tf, auto_save = a,
                sentiment_options = opts, text_df = text, sentiment_df = file_rows lf,
                tags_df = map (\<lambda>r. (fst r, TagStr (snd r))) (file_rows tf),
                current_text_index = 0,
                current_uid = None, current_return_later = False,
                current_not_rel = False, current_sentiment = None,
                out_debug = (if lf = None then [Printed ''No label file found.''] else [])
                          @ (if tf = None then [Printed ''No tags file found.''] else [])\<rparr>
      in if file_rows lf = [] then Inr s2
         else (case find_text_index_by_uid (fst (last (file_rows lf))) text of
                 Inl e \<Rightarrow> Inl e
               | Inr k \<Rightarrow> Inr (s2\<lparr>current_text_index := int k\<rparr>)))"
  by (cases lf; cases tf)
     (simp_all add: init_client_def load_label_data_def load_tags_data_def file_rows_def
        Let_def last_conv_nth)

lemma find_text_index_by_uid_first:
  assumes "k < length df" "row_uid (df ! k) = u" "\<forall>j<k. row_uid (df ! j) \<noteq> u"
  shows "find_text_index_by_uid u df = Inr k"
proof -
  have split: "[0..<length df] = [0..<k] @ k # [Suc k..<length df]"
    using assms(1) by (metis upt_conv_Cons upt_add_eq_append le_add_diff_inverse less_imp_le zero_le)
  have "filter (\<lambda>i. row_uid (df ! i) = u) [0..<k] = []"
    using assms(3) by (auto simp: filter_empty_conv)
  then have "filter (\<lambda>i. row_uid (df ! i) = u) [0..<length df]
               = k # filter (\<lambda>i. row_uid (df ! i) = u) [Suc k..<length df]"
    using assms(2) by (simp add: split)
  then show ?thesis by (simp add: find_text_index_by_uid_def)
qed

text \<open>
  C8. Built without a start index, the client starts at position 0 when the sentiment
  table (the rows of the label file, none when there is no file) is empty. Otherwise the
  constructor does what the lookup of the identifier of the last row of that table in the
  record store does: it starts at the index found, or raises the lookup's error. The index
  found is the first position of the store that carries the identifier.
\<close>

theorem init_cursor_most_recent:
  "(file_rows lf = [] \<longrightarrow>
      (\<exists>s. init_client text lf tf None a opts = Inr s \<and> sentiment_df s = []
           \<and> current_text_index s = 0))
   \<and> (file_rows lf \<noteq> [] \<longrightarrow>
      map_sum id (\<lambda>s. (sentiment_df s, current_text_index s)) (init_client text lf tf None a opts)
        = map_sum id (\<lambda>k. (file_rows lf, int k))
            (find_text_index_by_uid (fst (last (file_rows lf))) text))
   \<and> (file_rows lf \<noteq> [] \<and> k < length text \<and> row_uid (text ! k) = fst (last (file_rows lf))
        \<and> (\<forall>j<k. row_uid (text ! j) \<noteq> fst (last (file_rows lf))) \<longrightarrow>
      (\<exists>s. init_client text lf tf None a opts = Inr s \<and> sentiment_df s = file_rows lf
           \<and> current_text_index s = int k))"
proof (intro conjI impI)
  assume h: "file_rows lf \<noteq> [] \<and> k < length text \<and> row_uid (text ! k) = fst (last (file_rows lf))
        \<and> (\<forall>j<k. row_uid (text ! j) \<noteq> fst (last (file_rows lf)))"
  then have "find_text_index_by_uid (fst (last (file_rows lf))) text = Inr k"
    by (intro find_text_index_by_uid_first) auto
  then show "\<exists>s. init_client text lf tf None a opts = Inr s \<and> sentiment_df s = file_rows lf
           \<and> current_text_index s = int k"
    using h by (simp add: init_client_start_none Let_def)
qed (simp_all add: init_client_start_none Let_def split: sum.splits)

theorem init_cursor_most_recent_witness:
  "(\<exists>s. init_client ex_text None None None False ex_options = Inr s \<and> sentiment_df s = []
        \<and> current_text_index s = 0)
   \<and> map_sum id (\<lambda>s. (sentiment_df s, current_text_index s))
        (init_client ex_text (Some ex_label_rows) None None False ex_options)
       = Inr (ex_label_rows, 2)
   \<and> (\<exists>s. init_client ex_text (Some ex_label_rows) None None False ex_options = Inr s
        \<and> sentiment_df s = ex_label_rows \<and> current_text_index s = 2)"
proof -
  have e: "file_rows None = ([] :: (string \<times> string) list)" by (simp add: file_rows_def)
  have n: "ex_label_rows \<noteq> []" by (simp add: ex_label_rows_def)
  have f: "find_text_index_by_uid (fst (last ex_label_rows)) ex_text = Inr 2"
    by (simp add: ex_label_rows_def find_text_index_by_uid_def ex_text_def upt_rec)
  have k: "(2::nat) < length ex_text" "row_uid (ex_text ! 2) = fst (last ex_label_rows)"
    "\<forall>j<2. row_uid (ex_text ! j) \<noteq> fst (last ex_label_rows)"
    by (simp_all add: ex_text_def ex_label_rows_def less_Suc_eq numeral_2_eq_2)
  show ?thesis
    using init_cursor_most_recent[of None ex_text None False ex_options 0]
      init_cursor_most_recent[of "Some ex_label_rows" ex_text None False ex_options 2] k
    by (simp add: e n f file_rows_def)
qed

subsection \<open>Autosave\<close>

lemma save_all_saved: "label_saved (save_all s)" "tags_saved (save_all s)"
  by (simp_all add: label_saved_def tags_saved_def save_all_def save_tags_data_def
      save_label_data_def Let_def)

lemma add_tag_body_saved:
  assumes "auto_save s" "add_tag_body u t s = Inr s'"
  shows "autosaved s'"
  using assms
  by (auto simp: add_tag_body_def do_auto_save_def save_all_saved autosaved_def
      split: sum.splits if_splits)

lemma remove_tag_body_saved:
  assumes "auto_save s" "remove_tag_body u t s = Inr s'"
  shows "autosaved s'"
  using assms
  by (auto simp: remove_tag_body_def do_auto_save_def save_all_saved Let_def autosaved_def
      split: sum.splits if_splits)

lemma autosaved_debug: "autosaved s \<Longrightarrow> autosaved (s\<lparr>out_debug := d\<rparr>)"
  by (simp add: autosaved_def label_saved_def tags_saved_def)

lemma add_tag_autosaved:
  assumes "autosaved s"
  shows "autosaved (add_tag u t s)"
proof (cases "add_tag_body u t s")
  case (Inl e)
  then show ?thesis using assms by (simp add: add_tag_def autosaved_debug)
next
  case (Inr s')
  have "auto_save s" using assms by (simp add: autosaved_def)
  then show ?thesis using Inr by (simp add: add_tag_def add_tag_body_saved)
qed

lemma remove_tag_autosaved:
  assumes "autosaved s"
  shows "autosaved (remove_tag u t s)"
proof (cases "remove_tag_body u t s")
  case (Inl e)
  then show ?thesis using assms by (simp add: remove_tag_def autosaved_debug)
next
  case (Inr s')
  have "auto_save s" using assms by (simp add: autosaved_def)
  then show ?thesis using Inr by (simp add: remove_tag_def remove_tag_body_saved)
qed

text \<open>Adding a tag the cell already shows, and removing one it does not show, complete.\<close>

lemma add_tag_shown_completes:
  "check_tag u t s \<Longrightarrow> add_tag_body u t s = Inr (add_tag u t s)"
  by (auto simp add: check_tag_def add_tag_def add_tag_body_def split: if_splits)

lemma remove_tag_hidden_completes:
  "\<not> check_tag u t s \<Longrightarrow> remove_tag_body u t s = Inr (remove_tag u t s)"
  by (auto simp add: check_tag_def remove_tag_def remove_tag_body_def Let_def split: if_splits)

lemma special_autosaved: "autosaved s \<Longrightarrow> autosaved (create_special_buttons_f a b s)"
  by (cases "current_uid s")
     (simp_all add: create_special_buttons_f_def Let_def add_tag_autosaved remove_tag_autosaved)

lemma special_build:
  assumes "auto_save s" "current_uid s = Some u" "a = check_tag u ''return_later'' s"
  shows "autosaved (create_special_buttons_f a b s)"
proof -
  let ?s1 = "if a then add_tag u ''return_later'' s else remove_tag u ''return_later'' s"
  have "autosaved ?s1"
  proof (cases a)
    case True
    then have "add_tag_body u ''return_later'' s = Inr (add_tag u ''return_later'' s)"
      using assms(3) by (intro add_tag_shown_completes) simp
    then show ?thesis using True add_tag_body_saved[OF assms(1)] by simp
  next
    case False
    then have "remove_tag_body u ''return_later'' s = Inr (remove_tag u ''return_later'' s)"
      using assms(3) by (intro remove_tag_hidden_completes) simp
    then show ?thesis using False remove_tag_body_saved[OF assms(1)] by simp
  qed
  then have "autosaved (if b then add_tag u ''not_rel'' ?s1 else remove_tag u ''not_rel'' ?s1)"
    by (simp add: add_tag_autosaved remove_tag_autosaved)
  then show ?thesis using assms(2) by (simp add: create_special_buttons_f_def Let_def)
qed

lemma select_autosaved:
  "autosaved s \<Longrightarrow> autosaved (snd (create_sent_select_subpanel_text_part_f v s))"
  by (cases rule: select_cases[of v s])
     (simp_all add: autosaved_def label_saved_def tags_saved_def)

lemma text_part_build:
  assumes "auto_save s" "iloc (text_df s) (current_text_index s) = Inr r"
  shows "autosaved (snd (create_sent_select_subpanel_text_part s))"
proof -
  let ?s1 = "snd (set_current_variables (current_text_index s) s)"
  have s1: "current_uid ?s1 = Some (row_uid r)"
    "current_return_later ?s1 = check_tag (row_uid r) ''return_later'' ?s1"
    using assms(2)
    by (cases rule: set_current_variables_cases[of s "current_text_index s"];
        simp add: check_tag_def)+
  have "autosaved (create_special_buttons ?s1)"
    unfolding create_special_buttons_def
    by (rule special_build[where u = "row_uid r"]) (simp_all add: assms(1) s1)
  then show ?thesis using assms(2) by (simp add: text_part_unfold select_autosaved)
qed

lemma text_part_autosaved:
  assumes "autosaved s"
  shows "autosaved (snd (create_sent_select_subpanel_text_part s))"
proof (cases "iloc (text_df s) (current_text_index s)")
  case (Inl e)
  then show ?thesis using assms by (simp add: text_part_unfold)
next
  case (Inr r)
  then show ?thesis using assms text_part_build[of s r] by (simp add: autosaved_def)
qed

lemma autosaved_cursor: "autosaved s \<Longrightarrow> autosaved (s\<lparr>current_text_index := i\<rparr>)"
  by (simp add: autosaved_def label_saved_def tags_saved_def)

lemma on_del_clicked_unfold:
  assumes "current_uid s = Some u"
  shows "on_del_clicked s =
     create_sent_select_subpanel_text_part
       (if auto_save s
        then s\<lparr>sentiment_df := rows_ne u (sentiment_df s),
               label_file := Some (rows_ne u (sentiment_df s)),
               out_debug := out_debug s @ [Printed ''Auto-saved data.'']\<rparr>
        else s\<lparr>sentiment_df := rows_ne u (sentiment_df s)\<rparr>)"
  using assms by (simp add: on_del_clicked_def save_label_data_def Let_def)

lemma del_autosaved:
  assumes "autosaved s"
  shows "autosaved (snd (on_del_clicked s))"
proof (cases "current_uid s")
  case None
  then show ?thesis using assms by (simp add: on_del_clicked_def)
next
  case (Some u)
  have "autosaved (s\<lparr>sentiment_df := rows_ne u (sentiment_df s),
               label_file := Some (rows_ne u (sentiment_df s)),
               out_debug := out_debug s @ [Printed ''Auto-saved data.'']\<rparr>)"
    using assms by (simp add: autosaved_def label_saved_def tags_saved_def)
  moreover have "auto_save s" using assms by (simp add: autosaved_def)
  ultimately show ?thesis using Some
    by (simp add: on_del_clicked_unfold text_part_autosaved)
qed

lemma step_autosaved:
  assumes "autosaved s"
  shows "autosaved (step a s)"
proof (cases a)
  case Next
  then show ?thesis using assms
    by (simp add: on_next_clicked_def text_part_autosaved autosaved_cursor)
next
  case Prev
  then show ?thesis using assms
    by (simp add: on_prev_clicked_def text_part_autosaved autosaved_cursor)
next
  case Save
  then show ?thesis using assms
    by (simp add: on_save_clicked_def autosaved_def label_saved_def tags_saved_def Let_def
        save_all_def save_tags_data_def save_label_data_def)
next
  case Del
  then show ?thesis using assms by (simp add: del_autosaved)
next
  case (Select v)
  then show ?thesis using assms by (simp add: select_autosaved)
next
  case (Toggle x y)
  then show ?thesis using assms by (simp add: special_autosaved)
next
  case (AddTag u t)
  then show ?thesis using assms by (simp add: add_tag_autosaved)
next
  case (RemoveTag u t)
  then show ?thesis using assms by (simp add: remove_tag_autosaved)
qed

lemma run_autosaved: "autosaved s \<Longrightarrow> autosaved (run acts s)"
  by (induction acts arbitrary: s) (simp_all add: step_autosaved)

lemma init_auto_save:
  assumes "init_client text lf tf start a opts = Inr s0"
  shows "auto_save s0 = a"
  using assms
  by (cases lf; cases tf; cases start)
     (auto simp add: init_client_def load_label_data_def load_tags_data_def
        Let_def split: sum.splits if_splits)

lemma create_widget_built:
  assumes "auto_save s0" "create_widget s0 = (None, s1)"
  shows "autosaved s1"
proof -
  have "fst (create_sent_select_subpanel_text_part s0) = None"
    "s1 = snd (create_sent_select_subpanel_text_part s0)"
    using assms(2) by (simp_all add: create_widget_def create_sent_select_subpanel_def)
  then show ?thesis
    using text_part_build[OF assms(1)]
    by (cases "iloc (text_df s0) (current_text_index s0)") (simp_all add: text_part_fst)
qed

text \<open>
  C3. A client is constructed with \<^verbatim>\<open>auto_save\<close> on and its widget is built. After every
  operation of the session (setting or resetting a sentiment, adding or removing a tag,
  moving, saving) the label file holds the sentiment table and the tags file holds the
  tags table: both tables are saved. The tag operations save both files themselves; the
  sentiment callback and the reset write the label file only, and the tags file is current
  because every change of the tags table has been followed by a save of both since the
  widget was built.
\<close>

theorem autosave_both_files_current:
  assumes "init_client text lf tf start True opts = Inr s0"
    and "create_widget s0 = (None, s1)"
  shows "label_file (run acts s1) = Some (sentiment_df (run acts s1))
       \<and> tags_file (run acts s1)
           = Some (map (\<lambda>r. (fst r, cell_text (snd r))) (tags_df (run acts s1)))"
proof -
  have "auto_save s0" using init_auto_save[OF assms(1)] by simp
  then have "autosaved s1" using assms(2) by (rule create_widget_built)
  then have "autosaved (run acts s1)" by (rule run_autosaved)
  then show ?thesis by (simp add: autosaved_def label_saved_def tags_saved_def)
qed

lemma ex_built_widget: "create_widget (ex_client True) = (None, ex_built)"
proof -
  have "fst (create_widget (ex_client True)) = None"
    by (simp add: create_widget_def create_sent_select_subpanel_def text_part_fst ex_iloc)
  then show ?thesis by (simp add: ex_built_def prod_eq_iff)
qed

lemma ex_built_select:
  "sentiment_df (run [Toggle True False, Select (Some ''positive'')] ex_built)
     = [(''A'', ''positive'')]"
  "tags_df (run [Toggle True False, Select (Some ''positive'')] ex_built)
     = [(''A'', TagList [''return_later''])]"
  by code_simp+

theorem autosave_both_files_current_witness:
  "init_client ex_text None None None True ex_options = Inr (ex_client True)
   \<and> create_widget (ex_client True) = (None, ex_built)
   \<and> label_file (run [Toggle True False, Select (Some ''positive'')] ex_built)
       = Some [(''A'', ''positive'')]
   \<and> tags_file (run [Toggle True False, Select (Some ''positive'')] ex_built)
       = Some [(''A'', cell_text (TagList [''return_later'']))]"
  using ex_client_init[of True] ex_built_widget
    autosave_both_files_current[OF ex_client_init[of True] ex_built_widget,
      of "[Toggle True False, Select (Some ''positive'')]"]
  by (simp del: step.simps run.simps add: ex_built_select)

subsection \<open>What the operations write to the label file\<close>

lemma label_file_do_auto_save:
  "label_file (do_auto_save s) = (if auto_save s then Some (sentiment_df s) else label_file s)"
  by (simp add: do_auto_save_def)

lemma label_file_add_tag:
  "label_file (add_tag u t s) = label_file s \<or> label_file (add_tag u t s) = Some (sentiment_df s)"
  by (auto simp: add_tag_def add_tag_body_def label_file_do_auto_save split: sum.splits if_splits)

lemma label_file_remove_tag:
  "label_file (remove_tag u t s) = label_file s
   \<or> label_file (remove_tag u t s) = Some (sentiment_df s)"
  by (auto simp: remove_tag_def remove_tag_body_def label_file_do_auto_save Let_def
      split: sum.splits if_splits)

lemma label_file_special:
  "label_file (create_special_buttons_f a b s) = label_file s
   \<or> label_file (create_special_buttons_f a b s) = Some (sentiment_df s)"
proof (cases "current_uid s")
  case None
  then show ?thesis by (simp add: create_special_buttons_f_def)
next
  case (Some u)
  let ?s1 = "if a then add_tag u ''return_later'' s else remove_tag u ''return_later'' s"
  have 1: "label_file ?s1 = label_file s \<or> label_file ?s1 = Some (sentiment_df s)"
    using label_file_add_tag[of u "''return_later''" s]
      label_file_remove_tag[of u "''return_later''" s] by simp
  have 2: "sentiment_df ?s1 = sentiment_df s" by simp
  have 3: "create_special_buttons_f a b s =
             (if b then add_tag u ''not_rel'' ?s1 else remove_tag u ''not_rel'' ?s1)"
    using Some by (simp add: create_special_buttons_f_def)
  show ?thesis
    using 1 2 label_file_add_tag[of u "''not_rel''" ?s1]
      label_file_remove_tag[of u "''not_rel''" ?s1]
    unfolding 3 by (cases b) auto
qed


subsection \<open>One row per identifier\<close>

lemma distinct_rows_ne: "distinct (map fst df) \<Longrightarrow> distinct (map fst (rows_ne u df))"
  by (simp add: rows_ne_def distinct_map_filter)

lemma distinct_upsert: "distinct (map fst df) \<Longrightarrow> distinct (map fst (rows_ne u df @ [(u, v)]))"
  by (auto simp: rows_ne_def distinct_map_filter)

lemma uid_unique_keep:
  assumes "uid_unique s" "sentiment_df s' = sentiment_df s"
    "label_file s' = label_file s \<or> label_file s' = Some (sentiment_df s)"
  shows "uid_unique s'"
  using assms by (auto simp: uid_unique_def file_rows_def)

lemma select_uid_unique:
  assumes "uid_unique s"
  shows "uid_unique (snd (create_sent_select_subpanel_text_part_f v s))"
proof (cases "iloc (text_df s) (current_text_index s)")
  case (Inl e)
  then show ?thesis using assms by (simp add: create_sent_select_subpanel_text_part_f_def)
next
  case (Inr r)
  show ?thesis
  proof (cases "v = None \<or> v = Some []")
    case True
    then show ?thesis using assms Inr
      by (auto simp add: create_sent_select_subpanel_text_part_f_def)
  next
    case False
    then obtain x where x: "v = Some x" "x \<noteq> []" by auto
    have d: "distinct (map fst (rows_ne (row_uid r) (sentiment_df s) @ [(row_uid r, x)]))"
      using assms by (intro distinct_upsert) (simp add: uid_unique_def)
    show ?thesis using assms d unfolding x select_unfold[OF Inr x(2)]
      by (simp add: uid_unique_def file_rows_def Let_def save_label_data_def)
  qed
qed

lemma text_part_uid_unique:
  assumes "uid_unique s"
  shows "uid_unique (snd (create_sent_select_subpanel_text_part s))"
proof (cases "iloc (text_df s) (current_text_index s)")
  case (Inl e)
  then show ?thesis using assms by (simp add: text_part_unfold)
next
  case (Inr r)
  let ?s1 = "snd (set_current_variables (current_text_index s) s)"
  have "uid_unique ?s1" using assms by (simp add: uid_unique_def)
  then have "uid_unique (create_special_buttons ?s1)"
    unfolding create_special_buttons_def
    by (rule uid_unique_keep) (simp, rule label_file_special)
  then show ?thesis using Inr by (simp add: text_part_unfold select_uid_unique)
qed

lemma del_uid_unique:
  assumes "uid_unique s"
  shows "uid_unique (snd (on_del_clicked s))"
proof (cases "current_uid s")
  case None
  then show ?thesis using assms by (simp add: on_del_clicked_def)
next
  case (Some u)
  let ?s2 = "if auto_save s
        then s\<lparr>sentiment_df := rows_ne u (sentiment_df s),
               label_file := Some (rows_ne u (sentiment_df s)),
               out_debug := out_debug s @ [Printed ''Auto-saved data.'']\<rparr>
        else s\<lparr>sentiment_df := rows_ne u (sentiment_df s)\<rparr>"
  have "uid_unique ?s2"
    using assms by (simp add: uid_unique_def file_rows_def distinct_rows_ne)
  then have "uid_unique (snd (create_sent_select_subpanel_text_part ?s2))"
    by (rule text_part_uid_unique)
  then show ?thesis using Some by (simp add: on_del_clicked_unfold)
qed

lemma step_uid_unique:
  assumes "uid_unique s"
  shows "uid_unique (step act s)"
proof (cases act)
  case Next
  let ?s1 = "s\<lparr>current_text_index := current_text_index s + 1\<rparr>"
  have "uid_unique ?s1" using assms by (simp add: uid_unique_def)
  then have "uid_unique (snd (create_sent_select_subpanel_text_part ?s1))"
    by (rule text_part_uid_unique)
  then show ?thesis using Next by (simp add: on_next_clicked_def)
next
  case Prev
  let ?s1 = "s\<lparr>current_text_index := current_text_index s - 1\<rparr>"
  have "uid_unique ?s1" using assms by (simp add: uid_unique_def)
  then have "uid_unique (snd (create_sent_select_subpanel_text_part ?s1))"
    by (rule text_part_uid_unique)
  then show ?thesis using Prev by (simp add: on_prev_clicked_def)
next
  case Save
  then show ?thesis using assms
    by (simp add: uid_unique_def on_save_clicked_def file_rows_def Let_def)
next
  case Del
  then show ?thesis using assms by (simp add: del_uid_unique)
next
  case (Select v)
  then show ?thesis using assms by (simp add: select_uid_unique)
next
  case (Toggle a b)
  show ?thesis unfolding Toggle step.simps
    using assms by (rule uid_unique_keep) (simp, rule label_file_special)
next
  case (AddTag u t)
  show ?thesis unfolding AddTag step.simps
    using assms by (rule uid_unique_keep) (simp, rule label_file_add_tag)
next
  case (RemoveTag u t)
  show ?thesis unfolding RemoveTag step.simps
    using assms by (rule uid_unique_keep) (simp, rule label_file_remove_tag)
qed

lemma run_uid_unique: "uid_unique s \<Longrightarrow> uid_unique (run acts s)"
  by (induction acts arbitrary: s) (simp_all add: step_uid_unique)

lemma init_uid_unique:
  assumes "init_client text lf tf start a opts = Inr s0" "distinct (map fst (file_rows lf))"
  shows "uid_unique s0"
proof -
  have "sentiment_df s0 = file_rows lf \<and> label_file s0 = lf"
    using assms(1)
    by (cases lf; cases tf; cases start)
       (auto simp add: init_client_def load_label_data_def load_tags_data_def file_rows_def
          Let_def split: sum.splits if_splits)
  then show ?thesis using assms(2) by (simp add: uid_unique_def)
qed

text \<open>
  C4. A client is built over a label file in which no identifier occurs twice (no file, or
  a file left by an earlier session, which by this very theorem has the property). After
  any run of operations each identifier labels at most one row of the sentiment table, and
  the label file on disk again has no identifier twice.
\<close>

theorem sentiment_uid_unique:
  assumes "init_client text lf tf start a opts = Inr s0"
    and "distinct (map fst (file_rows lf))"
  shows "distinct (map fst (sentiment_df (run acts s0)))
       \<and> distinct (map fst (file_rows (label_file (run acts s0))))"
  using run_uid_unique[OF init_uid_unique[OF assms], of acts] by (simp add: uid_unique_def)

theorem sentiment_uid_unique_witness:
  "init_client ex_text (Some ex_label_rows) None None False ex_options
     = Inr ((ex_client False)\<lparr>label_file := Some ex_label_rows, sentiment_df := ex_label_rows,
              current_text_index := 2, out_debug := [Printed ''No tags file found.'']\<rparr>)
   \<and> distinct (map fst (file_rows (Some ex_label_rows)))
   \<and> distinct (map fst (sentiment_df (run ex_session
        ((ex_client False)\<lparr>label_file := Some ex_label_rows, sentiment_df := ex_label_rows,
              current_text_index := 2, out_debug := [Printed ''No tags file found.'']\<rparr>))))"
proof -
  have h1: "init_client ex_text (Some ex_label_rows) None None False ex_options
     = Inr ((ex_client False)\<lparr>label_file := Some ex_label_rows, sentiment_df := ex_label_rows,
              current_text_index := 2, out_debug := [Printed ''No tags file found.'']\<rparr>)"
    by (simp add: init_client_def load_label_data_def ex_client_def ex_label_rows_def
        find_text_index_by_uid_def ex_text_def upt_rec Let_def)
  have h2: "distinct (map fst (file_rows (Some ex_label_rows)))"
    by (simp add: file_rows_def ex_label_rows_def)
  show ?thesis using h1 h2 sentiment_uid_unique[OF h1 h2, of ex_session] by simp
qed

subsection \<open>Upserts append\<close>

lemma shown_events_cong:
  assumes "text_df s' = text_df s" "current_text_index s' = current_text_index s"
    "sentiment_df s' = sentiment_df s" "sentiment_options s' = sentiment_options s"
  shows "shown_events s' = shown_events s"
  unfolding shown_events_def assms by (rule refl)

lemma step_sentiment:
  "sentiment_df (step a s) = fold apply_event (sentiment_events a s) (sentiment_df s)"
proof (cases a)
  case Next
  then show ?thesis by (simp add: on_next_clicked_def text_part_sentiment)
next
  case Prev
  then show ?thesis by (simp add: on_prev_clicked_def text_part_sentiment)
next
  case Save
  then show ?thesis by (simp add: on_save_clicked_def Let_def)
next
  case Del
  show ?thesis
  proof (cases "current_uid s")
    case None
    then show ?thesis using Del by (simp add: on_del_clicked_def)
  next
    case (Some u)
    let ?s2 = "if auto_save s
        then s\<lparr>sentiment_df := rows_ne u (sentiment_df s),
               label_file := Some (rows_ne u (sentiment_df s)),
               out_debug := out_debug s @ [Printed ''Auto-saved data.'']\<rparr>
        else s\<lparr>sentiment_df := rows_ne u (sentiment_df s)\<rparr>"
    have "shown_events ?s2 = shown_events (s\<lparr>sentiment_df := rows_ne u (sentiment_df s)\<rparr>)"
      by (rule shown_events_cong) simp_all
    moreover have "sentiment_df ?s2 = rows_ne u (sentiment_df s)" by simp
    ultimately show ?thesis using Del Some
      by (simp add: on_del_clicked_unfold text_part_sentiment del: if_split)
  qed
next
  case (Select v)
  then show ?thesis by (simp add: select_any_sentiment)
qed simp_all

lemma run_sentiment:
  "sentiment_df (run acts s) = fold apply_event (events acts s) (sentiment_df s)"
  by (induction acts arbitrary: s) (simp_all add: step_sentiment)

lemma last_row_snoc [simp]: "last_row (xs @ [x]) = Some x"
  by (cases xs) (simp_all add: last_row_def)

lemma last_row_filter_fold:
  "last_row (filter (\<lambda>r. fst r \<notin> set dead) (fold apply_event es df))
     = latest_from df dead (rev es)"
proof (induction es arbitrary: dead rule: rev_induct)
  case Nil
  then show ?case by simp
next
  case (snoc e es)
  show ?case
  proof (cases e)
    case (Upsert u v)
    have f: "filter (\<lambda>r. fst r \<notin> set dead) (rows_ne u T) = filter (\<lambda>r. fst r \<notin> set dead) T"
      if "u \<in> set dead" for T :: "('a \<times> string) list"
      using that by (auto simp: rows_ne_def intro: filter_cong)
    show ?thesis
    proof (cases "u \<in> set dead")
      case True
      then show ?thesis using Upsert snoc.IH[of dead] by (simp add: f)
    next
      case False
      then show ?thesis using Upsert by simp
    qed
  next
    case (Delete u)
    have "filter (\<lambda>r. fst r \<notin> set dead) (rows_ne u T) = filter (\<lambda>r. fst r \<notin> set (u # dead)) T"
      for T :: "('a \<times> string) list"
      by (auto simp: rows_ne_def intro: filter_cong)
    then show ?thesis using Delete snoc.IH[of "u # dead"] by simp
  qed
qed

lemma last_row_run:
  "last_row (sentiment_df (run acts s)) = latest_from (sentiment_df s) [] (rev (events acts s))"
  using last_row_filter_fold[of "[]" "events acts s" "sentiment_df s"]
  by (simp add: run_sentiment)

lemma add_tag_body_new:
  assumes "\<not> uid_in u (tags_df s)"
  shows "map_sum id tags_df (add_tag_body u t s)
           = Inr (rows_ne u (tags_df s) @ [(u, TagList [t])])"
  using assms by (simp add: add_tag_body_def)

lemma add_tag_body_list:
  assumes "uid_in u (tags_df s)" "snd (hd (rows_eq u (tags_df s))) = TagList ts"
  shows "map_sum id tags_df (add_tag_body u t s)
           = Inr (rows_ne u (tags_df s) @ [(u, TagList (if t \<in> set ts then ts else ts @ [t]))])"
  using assms by (simp add: add_tag_body_def)

lemma remove_tag_body_list:
  assumes "uid_in u (tags_df s)" "snd (hd (rows_eq u (tags_df s))) = TagList ts"
    "remove1 t ts \<noteq> []"
  shows "map_sum id tags_df (remove_tag_body u t s)
           = Inr (rows_ne u (tags_df s) @ [(u, TagList (remove1 t ts))])"
  using assms by (auto simp add: remove_tag_body_def Let_def remove1_idem)

lemma select_set:
  assumes "iloc (text_df s) (current_text_index s) = Inr r" "v \<noteq> []"
  shows "map_prod id sentiment_df (create_sent_select_subpanel_text_part_f (Some v) s)
           = (None, rows_ne (row_uid r) (sentiment_df s) @ [(row_uid r, v)])"
  using select_fields(1,6)[OF assms]
  by (cases "create_sent_select_subpanel_text_part_f (Some v) s") simp

text \<open>
  C10. Every upsert completes and leaves the table as the old one without the rows of the
  identifier, followed by the new row: setting a sentiment (the row of the record under the
  cursor with the value set), \<^verbatim>\<open>add_tag\<close> (the tag alone for an identifier without row, else
  the list of its row with the tag appended unless present), and \<^verbatim>\<open>remove_tag\<close> while the
  list stays non-empty (the list without the first occurrence of the tag). Hence after any
  run of operations the last row of the sentiment table is the most recent set that was not
  cleared afterwards (and, when no set of the run survives, the last surviving row of the
  table the run started from). The sets of a run include those made by showing a record
  that already has a sentiment.
\<close>

theorem upsert_appends_last:
  "(\<forall>r. iloc (text_df s) (current_text_index s) = Inr r \<and> v \<noteq> [] \<longrightarrow>
       map_prod id sentiment_df (create_sent_select_subpanel_text_part_f (Some v) s)
         = (None, rows_ne (row_uid r) (sentiment_df s) @ [(row_uid r, v)]))
   \<and> (\<not> uid_in u (tags_df s) \<longrightarrow>
       map_sum id tags_df (add_tag_body u t s)
         = Inr (rows_ne u (tags_df s) @ [(u, TagList [t])]))
   \<and> (\<forall>ts. uid_in u (tags_df s) \<and> snd (hd (rows_eq u (tags_df s))) = TagList ts \<longrightarrow>
       map_sum id tags_df (add_tag_body u t s)
         = Inr (rows_ne u (tags_df s) @ [(u, TagList (if t \<in> set ts then ts else ts @ [t]))]))
   \<and> (\<forall>ts. uid_in u (tags_df s) \<and> snd (hd (rows_eq u (tags_df s))) = TagList ts
          \<and> remove1 t ts \<noteq> [] \<longrightarrow>
       map_sum id tags_df (remove_tag_body u t s)
         = Inr (rows_ne u (tags_df s) @ [(u, TagList (remove1 t ts))]))
   \<and> last_row (sentiment_df (run acts s))
       = latest_from (sentiment_df s) [] (rev (events acts s))"
  using select_set[of s _ v] add_tag_body_new[of u s t] add_tag_body_list[of u s _ t]
    remove_tag_body_list[of u s _ t] last_row_run[of acts s]
  by blast

lemma ex_session_events:
  "events ex_session (ex_client False)
     = [Upsert ''A'' ''positive'', Upsert ''B'' ''negative'', Upsert ''A'' ''positive'']"
  by code_simp

lemma ex_session_table:
  "sentiment_df (run ex_session (ex_client False))
     = [(''B'', ''negative''), (''A'', ''positive'')]"
  by code_simp

lemma ex_two_tags:
  "tags_df ex_two_tags = [(''A'', TagList [''return_later'', ''not_rel''])]"
  by (simp add: ex_two_tags_def add_tag_def add_tag_body_def ex_client_def uid_in_def
      rows_ne_def rows_eq_def do_auto_save_def)

theorem upsert_appends_last_witness:
  "map_prod id sentiment_df
       (create_sent_select_subpanel_text_part_f (Some ''positive'') (ex_client False))
     = (None, [(''A'', ''positive'')])
   \<and> map_sum id tags_df (add_tag_body ''A'' ''not_rel'' (ex_client False))
       = Inr [(''A'', TagList [''not_rel''])]
   \<and> map_sum id tags_df (add_tag_body ''A'' ''return_later'' ex_two_tags)
       = Inr [(''A'', TagList [''return_later'', ''not_rel''])]
   \<and> map_sum id tags_df (remove_tag_body ''A'' ''return_later'' ex_two_tags)
       = Inr [(''A'', TagList [''not_rel''])]
   \<and> last_row (sentiment_df (run ex_session (ex_client False))) = Some (''A'', ''positive'')"
proof -
  have e: "sentiment_df (ex_client False) = []" "tags_df (ex_client False) = []"
    by (simp_all add: ex_client_def)
  have n: "\<not> uid_in ''A'' (tags_df (ex_client False))" by (simp add: e uid_in_def)
  have y: "uid_in ''A'' (tags_df ex_two_tags)"
    "snd (hd (rows_eq ''A'' (tags_df ex_two_tags))) = TagList [''return_later'', ''not_rel'']"
    "remove1 ''return_later'' [''return_later'', ''not_rel''] \<noteq> []"
    by (simp_all add: ex_two_tags uid_in_def rows_eq_def)
  show ?thesis
    using upsert_appends_last[of "ex_client False" "''positive''" "''A''" "''not_rel''" ex_session]
      upsert_appends_last[of ex_two_tags "''positive''" "''A''" "''return_later''" "[]"]
      ex_iloc[of False] n y
    by (simp add: e ex_session_events rows_ne_def ex_two_tags)
qed

subsection \<open>Highlighting and the tags file\<close>

lemma empty_pattern_never_returns:
  "add_match_formatting d (search_literal []) color (c # cs) = Inl RecursionError"
  by (induction d) (simp_all add: search_literal_def)

text \<open>
  C9 fails on the code. For every recursion budget: a match that ends the string is
  returned without markup (\<open>foo\<close> in \<open>foo\<close>, and the second \<open>foo\<close> of \<open>a foo b foo\<close>), and the
  empty pattern, the default \<^verbatim>\<open>emphasis_regex\<close>, recurses on the unchanged string until
  RecursionError on a non-empty text.
\<close>

theorem add_match_formatting_defects:
  "add_match_formatting (Suc d) (search_literal ''foo'') ''blue'' ''foo'' = Inr ''foo''
   \<and> add_match_formatting (Suc (Suc d)) (search_literal ''foo'') ''blue'' ''a foo b foo''
       = Inr (''a '' @ span_open ''blue'' @ ''foo'' @ span_close @ '' b foo'')
   \<and> add_match_formatting d (search_literal []) ''blue'' ''a'' = Inl RecursionError"
  by (simp add: search_literal_def empty_pattern_never_returns)

lemma ex_tagged_tags: "tags_df ex_tagged = [(''A'', TagList [''return_later''])]"
  by (simp add: ex_tagged_def add_tag_def add_tag_body_def ex_client_def uid_in_def rows_ne_def
      do_auto_save_def)

lemma cell_text_return_later:
  "py_str_list [''return_later''] = CHR ''['' # CHR 0x27 # ''return_later'' @ [CHR 0x27, CHR '']'']"
  by (simp add: py_str_list_def py_repr_str_def repr_char_def Let_def)

text \<open>
  C2 fails on the code. The table \<open>A \<mapsto> [return_later]\<close> is saved and loaded into a fresh
  client: the cell comes back as the text of the list, not as a list. Membership then is
  substring search (\<open>return\<close> counts as a tag of \<open>A\<close>), and adding a further tag fails with
  AttributeError in the body of \<^verbatim>\<open>add_tag\<close>, leaving the table as it was.
\<close>

theorem tags_round_trip_fails:
  "tags_df ex_tagged = [(''A'', TagList [''return_later''])]
   \<and> map_sum id tags_df ex_reloaded
       = Inr [(''A'', TagStr (CHR ''['' # CHR 0x27 # ''return_later'' @ [CHR 0x27, CHR '']'']))]
   \<and> \<not> check_tag ''A'' ''return'' ex_tagged
   \<and> (case ex_reloaded of Inl e \<Rightarrow> False | Inr s \<Rightarrow>
         check_tag ''A'' ''return'' s
         \<and> add_tag_body ''A'' ''not_rel'' s = Inl AttributeError
         \<and> tags_df (add_tag ''A'' ''not_rel'' s) = tags_df s)"
proof -
  have r: "ex_reloaded = Inr ((ex_client False)\<lparr>
             tags_file := Some [(''A'', CHR ''['' # CHR 0x27 # ''return_later'' @ [CHR 0x27, CHR '']''])],
             tags_df := [(''A'', TagStr (CHR ''['' # CHR 0x27 # ''return_later'' @ [CHR 0x27, CHR '']'']))]\<rparr>)"
    unfolding ex_reloaded_def
    by (simp add: load_tags_data_def save_tags_data_def ex_tagged_tags cell_text_return_later)
  show ?thesis
    by (simp add: r ex_tagged_tags check_tag_def uid_in_def rows_eq_def is_substr_def
        add_tag_def add_tag_body_def)
qed

end
